(* ===== verification/Prelude.thy ===== *)
theory Prelude
  imports Complex_Main "HOL-Library.Multiset"
begin

text \<open>
  Shared vocabulary of the log-analysis model: the exceptions the Python code can raise
  (as one \<open>error\<close> datatype), the error monad \<open>error + 'a\<close> in which every fallible
  pipeline stage returns, its list traversal \<open>map_r\<close> (a pandas column conversion that
  raises at the first bad element), and generic lemmas on lists and sorted lists that
  several components use.
\<close>

named_theorems pipeline_simps "unfolding rules of the pipeline stages, for evaluation"

type_synonym timestamp = int \<comment> \<open>a pandas Timestamp at whole seconds: seconds since the epoch\<close>

datatype error =
    ParseError string          \<comment> \<open>\<open>pd.to_datetime\<close>: string not in the log's timestamp format\<close>
  | OutOfBoundsDatetime string \<comment> \<open>\<open>pd.to_datetime\<close>: instant outside the int64 nanosecond range\<close>
  | RoundOverflow timestamp    \<comment> \<open>\<open>dt.floor\<close>: the floored nanosecond value leaves int64\<close>
  | EmptyInput                 \<comment> \<open>sklearn \<open>check_array\<close>: \<open>Found array with 0 sample(s)\<close>\<close>
  | NaNInput                   \<comment> \<open>sklearn \<open>check_array\<close>: \<open>Input X contains NaN\<close>\<close>
  | ZeroDivision               \<comment> \<open>Python \<open>ZeroDivisionError\<close>\<close>

definition bind_r :: "'e + 'a \<Rightarrow> ('a \<Rightarrow> 'e + 'b) \<Rightarrow> 'e + 'b" where
  "bind_r m f = (case m of Inl e \<Rightarrow> Inl e | Inr a \<Rightarrow> f a)"

primrec map_r :: "('a \<Rightarrow> 'e + 'b) \<Rightarrow> 'a list \<Rightarrow> 'e + 'b list" where
  "map_r f [] = Inr []"
| "map_r f (x # xs) =
     (case f x of Inl e \<Rightarrow> Inl e
      | Inr y \<Rightarrow> (case map_r f xs of Inl e \<Rightarrow> Inl e | Inr ys \<Rightarrow> Inr (y # ys)))"

lemma bind_r_simps [simp, pipeline_simps]:
  "bind_r (Inl e) f = Inl e"
  "bind_r (Inr a) f = f a"
  by (simp_all add: bind_r_def)

lemma bind_r_Inr_iff:
  "bind_r m f = Inr b \<longleftrightarrow> (\<exists>a. m = Inr a \<and> f a = Inr b)"
  by (cases m) auto

lemma map_r_Inr_iff:
  "map_r f xs = Inr ys \<longleftrightarrow> list_all2 (\<lambda>x y. f x = Inr y) xs ys"
proof (induction xs arbitrary: ys)
  case Nil
  then show ?case by auto
next
  case (Cons x xs)
  show ?case
  proof (cases "f x")
    case (Inl e)
    then show ?thesis by (auto simp: list_all2_Cons1)
  next
    case (Inr y)
    then show ?thesis
      using Cons.IH by (cases "map_r f xs") (auto simp: list_all2_Cons1)
  qed
qed

lemma map_r_length:
  "map_r f xs = Inr ys \<Longrightarrow> length ys = length xs"
  by (auto simp: map_r_Inr_iff dest: list_all2_lengthD)

lemma map_r_nth:
  "map_r f xs = Inr ys \<Longrightarrow> i < length xs \<Longrightarrow> f (xs ! i) = Inr (ys ! i)"
  by (auto simp: map_r_Inr_iff list_all2_conv_all_nth)

lemma map_r_Inl:
  "map_r f xs = Inl e \<Longrightarrow> \<exists>x \<in> set xs. f x = Inl e"
  by (induction xs) (auto split: sum.splits)

lemma map_r_Inl_exists:
  "\<exists>x \<in> set xs. \<exists>e. f x = Inl e \<Longrightarrow> \<exists>e. map_r f xs = Inl e"
proof (induction xs)
  case (Cons a xs)
  show ?case
  proof (cases "f a")
    case (Inr b)
    then have "\<exists>x \<in> set xs. \<exists>e. f x = Inl e" using Cons.prems by auto
    then obtain e where "map_r f xs = Inl e" using Cons.IH by blast
    with Inr show ?thesis by simp
  qed simp
qed simp

lemma map_r_Inr_map:
  assumes "\<forall>x \<in> set xs. f x = Inr (g x)"
  shows "map_r f xs = Inr (map g xs)"
  using assms by (induction xs) auto

lemma map_r_map_eq:
  "map_r f xs = Inr ys \<Longrightarrow> (\<forall>x y. f x = Inr y \<longrightarrow> y = g x) \<Longrightarrow> ys = map g xs"
  by (induction xs arbitrary: ys) (auto split: sum.splits)

subsection \<open>Lists\<close>

text \<open>In a sorted list, fewer than \<open>k\<close> elements lie strictly below the \<open>k\<close>-th.\<close>

lemma sorted_filter_less_nth:
  fixes ys :: "'a::linorder list"
  assumes "sorted ys" and "k < length ys"
  shows "length (filter (\<lambda>v. v < ys ! k) ys) \<le> k"
proof -
  have drop_ge: "\<forall>v \<in> set (drop k ys). ys ! k \<le> v"
    using assms by (auto simp: in_set_conv_nth sorted_iff_nth_mono)
  have "filter (\<lambda>v. v < ys ! k) (drop k ys) = []"
    using drop_ge by (auto simp: filter_empty_conv)
  then have "filter (\<lambda>v. v < ys ! k) ys = filter (\<lambda>v. v < ys ! k) (take k ys)"
    by (metis append_Nil2 append_take_drop_id filter_append)
  then have "length (filter (\<lambda>v. v < ys ! k) ys) \<le> length (take k ys)"
    by (metis length_filter_le)
  then show ?thesis using assms by simp
qed

text \<open>In a strictly increasing list, exactly \<open>k\<close> elements lie strictly below the \<open>k\<close>-th.\<close>

lemma sorted_distinct_filter_less_nth:
  fixes ys :: "'a::linorder list"
  assumes "sorted ys" and "distinct ys" and "k < length ys"
  shows "length (filter (\<lambda>v. v < ys ! k) ys) = k"
proof -
  have take_lt: "\<forall>v \<in> set (take k ys). v < ys ! k"
  proof
    fix v assume "v \<in> set (take k ys)"
    then obtain i where i: "i < k" "v = ys ! i"
      using assms(3) by (auto simp: in_set_conv_nth)
    then have "ys ! i \<le> ys ! k" "ys ! i \<noteq> ys ! k"
      using assms by (auto simp: sorted_iff_nth_mono nth_eq_iff_index_eq)
    then show "v < ys ! k" using i by simp
  qed
  have drop_ge: "\<forall>v \<in> set (drop k ys). ys ! k \<le> v"
    using assms by (auto simp: in_set_conv_nth sorted_iff_nth_mono)
  have "filter (\<lambda>v. v < ys ! k) ys
        = filter (\<lambda>v. v < ys ! k) (take k ys) @ filter (\<lambda>v. v < ys ! k) (drop k ys)"
    by (metis append_take_drop_id filter_append)
  also have "\<dots> = take k ys"
    using take_lt drop_ge by (auto simp: filter_empty_conv)
  finally show ?thesis using assms by simp
qed

lemma length_filter_map:
  "length (filter P (map f xs)) = length (filter (P \<circ> f) xs)"
  by (simp add: filter_map)

lemma length_filter_sort:
  "length (filter P (sort xs)) = length (filter P xs)"
  by (metis mset_filter mset_sort size_mset)

end
