(* ===== verification/PyStr.thy ===== *)
theory PyStr
  imports Prelude "HOL-Library.Sublist"
begin

text \<open>
  The Python string operations the parsers call, on strings of code points below 256
  (a \<open>char\<close> is read as the Latin-1 code point \<open>of_char c\<close>): \<open>str.isspace\<close>
  and \<open>str.strip()\<close>, \<open>str.split(sep, maxsplit)\<close>, the character classes
  \<open>\d\<close> and \<open>\w\<close> of the \<open>re\<close> module on \<open>str\<close> patterns, and reading a text
  file line by line (\<open>readlines\<close> / iteration) in universal-newline mode.
\<close>

abbreviation LF :: char where "LF \<equiv> CHR 0x0A"
abbreviation CR :: char where "CR \<equiv> CHR 0x0D"
abbreviation SP :: char where "SP \<equiv> CHR 0x20"

subsection \<open>Character classes\<close>

text \<open>\<open>str.isspace\<close>: the Unicode whitespace code points below 256.\<close>

definition py_isspace :: "char \<Rightarrow> bool" where
  "py_isspace c = (let n = of_char c :: nat in
     (9 \<le> n \<and> n \<le> 13) \<or> (28 \<le> n \<and> n \<le> 32) \<or> n = 133 \<or> n = 160)"

text \<open>\<open>\d\<close> (Unicode decimal digits): below 256 only \<open>0\<close>..\<open>9\<close>.\<close>

definition re_digit :: "char \<Rightarrow> bool" where
  "re_digit c = (let n = of_char c :: nat in 48 \<le> n \<and> n \<le> 57)"

text \<open>
  \<open>\w\<close>: \<open>_\<close> or \<open>str.isalnum\<close> (letters, and decimal, digit and numeric
  characters such as superscript two and the vulgar fractions) below 256.
\<close>

definition re_word :: "char \<Rightarrow> bool" where
  "re_word c = (let n = of_char c :: nat in
     (48 \<le> n \<and> n \<le> 57) \<or> (65 \<le> n \<and> n \<le> 90) \<or> n = 95 \<or> (97 \<le> n \<and> n \<le> 122) \<or>
     n = 170 \<or> n = 178 \<or> n = 179 \<or> n = 181 \<or> n = 185 \<or> n = 186 \<or>
     (188 \<le> n \<and> n \<le> 190) \<or> (192 \<le> n \<and> n \<le> 214) \<or> (216 \<le> n \<and> n \<le> 246) \<or>
     (248 \<le> n \<and> n \<le> 255))"

lemma py_isspace_simps [simp]:
  "py_isspace SP" "py_isspace LF" "py_isspace CR" "py_isspace (CHR 0x09)"
  by (simp_all add: py_isspace_def)

lemma re_word_not_space: "re_word c \<Longrightarrow> \<not> py_isspace c"
  by (auto simp: re_word_def py_isspace_def Let_def)

lemma re_word_not_SP: "re_word c \<Longrightarrow> c \<noteq> SP"
  by (metis py_isspace_simps(1) re_word_not_space)

lemma re_digit_not_SP: "re_digit c \<Longrightarrow> c \<noteq> SP"
  by (auto simp: re_digit_def)

subsection \<open>\<open>str.strip()\<close>\<close>

definition py_strip :: "string \<Rightarrow> string" where
  "py_strip s = rev (dropWhile py_isspace (rev (dropWhile py_isspace s)))"

lemma rstrip_prefix: "xs = rev (dropWhile P (rev xs)) @ rev (takeWhile P (rev xs))"
  by (metis rev_append rev_rev_ident takeWhile_dropWhile_id)

lemma py_strip_last:
  "py_strip s \<noteq> [] \<Longrightarrow> \<not> py_isspace (last (py_strip s))"
proof -
  assume ne: "py_strip s \<noteq> []"
  let ?r = "dropWhile py_isspace (rev (dropWhile py_isspace s))"
  have "?r \<noteq> []" using ne by (simp add: py_strip_def)
  then have "\<not> py_isspace (hd ?r)" by (simp add: hd_dropWhile)
  then show ?thesis using \<open>?r \<noteq> []\<close> by (simp add: py_strip_def last_rev)
qed

lemma py_strip_hd:
  "py_strip s \<noteq> [] \<Longrightarrow> \<not> py_isspace (hd (py_strip s))"
proof -
  assume ne: "py_strip s \<noteq> []"
  let ?d = "dropWhile py_isspace s"
  have split: "?d = py_strip s @ rev (takeWhile py_isspace (rev ?d))"
    unfolding py_strip_def by (rule rstrip_prefix)
  have "?d \<noteq> []" using ne unfolding py_strip_def by (metis dropWhile.simps(1) rev.simps(1))
  then have "\<not> py_isspace (hd ?d)" by (simp add: hd_dropWhile)
  moreover have "hd ?d = hd (py_strip s)" using split ne by (metis hd_append2)
  ultimately show ?thesis by simp
qed

text \<open>Trailing whitespace, such as the line terminator, does not change the stripped line.\<close>

lemma py_strip_snoc_space:
  assumes "py_isspace c"
  shows "py_strip (s @ [c]) = py_strip s"
proof (cases "\<forall>x \<in> set s. py_isspace x")
  case True
  then have d1: "dropWhile py_isspace s = []" by simp
  have d2: "dropWhile py_isspace (s @ [c]) = []"
    using True assms by simp
  show ?thesis unfolding py_strip_def using d1 d2 by (simp del: dropWhile_eq_Nil_conv)
next
  case False
  then have "dropWhile py_isspace (s @ [c]) = dropWhile py_isspace s @ [c]"
    by (simp add: dropWhile_append)
  then show ?thesis using assms by (simp add: py_strip_def)
qed

lemma set_py_strip: "set (py_strip s) \<subseteq> set s"
proof
  fix x assume "x \<in> set (py_strip s)"
  then have "x \<in> set (dropWhile py_isspace (rev (dropWhile py_isspace s)))"
    by (simp add: py_strip_def)
  then have "x \<in> set (dropWhile py_isspace s)" by (auto dest: set_dropWhileD)
  then show "x \<in> set s" by (auto dest: set_dropWhileD)
qed

subsection \<open>\<open>str.split(sep, maxsplit)\<close>\<close>

text \<open>
  \<open>s.split(sep, n)\<close> with a one-character separator: at most \<open>n\<close> splits, leftmost
  first; the rest of the string, separators included, is the last part. Adjacent
  separators give empty parts (unlike the whitespace-run splitting of \<open>s.split()\<close>).
\<close>

fun py_split :: "char \<Rightarrow> nat \<Rightarrow> string \<Rightarrow> string list" where
  "py_split sep 0 s = [s]"
| "py_split sep (Suc n) s =
     (let w = takeWhile (\<lambda>c. c \<noteq> sep) s; r = dropWhile (\<lambda>c. c \<noteq> sep) s in
      if r = [] then [w] else w # py_split sep n (tl r))"

lemma takeWhile_dropWhile_first:
  "sep \<notin> set w \<Longrightarrow>
   takeWhile (\<lambda>c. c \<noteq> sep) (w @ sep # rest) = w \<and>
   dropWhile (\<lambda>c. c \<noteq> sep) (w @ sep # rest) = sep # rest"
  by (induction w) auto

lemma takeWhile_dropWhile_none:
  "sep \<notin> set w \<Longrightarrow> takeWhile (\<lambda>c. c \<noteq> sep) w = w \<and> dropWhile (\<lambda>c. c \<noteq> sep) w = []"
  by (induction w) auto

lemma py_split_no_sep:
  "sep \<notin> set w \<Longrightarrow> py_split sep n w = [w]"
  by (cases n) (simp_all add: takeWhile_dropWhile_none del: dropWhile_eq_Nil_conv)

lemma py_split_Suc_sep:
  "sep \<notin> set w \<Longrightarrow> py_split sep (Suc n) (w @ sep # rest) = w # py_split sep n rest"
  by (simp add: takeWhile_dropWhile_first del: dropWhile_eq_Nil_conv)

lemma py_split_nonempty: "py_split sep n s \<noteq> []"
  by (cases n) (simp_all add: Let_def)

text \<open>\<open>sep.join(parts)\<close>, the inverse of splitting.\<close>

fun py_join :: "char \<Rightarrow> string list \<Rightarrow> string" where
  "py_join sep [] = []"
| "py_join sep [w] = w"
| "py_join sep (w # v # ws) = w @ sep # py_join sep (v # ws)"

lemma py_join_Cons:
  "xs \<noteq> [] \<Longrightarrow> py_join c (w # xs) = w @ c # py_join c xs"
  by (cases xs) simp_all

lemma py_split_join:
  "py_join sep (py_split sep n s) = s"
proof (induction n arbitrary: s)
  case 0
  then show ?case by simp
next
  case (Suc n)
  show ?case
  proof (cases "sep \<in> set s")
    case False
    then have "py_split sep (Suc n) s = [s]" by (rule py_split_no_sep)
    then show ?thesis by (simp del: py_split.simps)
  next
    case True
    then obtain w rest where s: "s = w @ sep # rest" and w: "sep \<notin> set w"
      by (meson split_list_first)
    then show ?thesis
      using Suc.IH by (simp add: py_split_Suc_sep py_join_Cons py_split_nonempty del: py_split.simps)
  qed
qed

lemma length_py_split:
  "length (py_split sep n s) = min (Suc n) (Suc (count_list s sep))"
proof (induction n arbitrary: s)
  case 0
  then show ?case by simp
next
  case (Suc n)
  show ?case
  proof (cases "sep \<in> set s")
    case False
    then have "py_split sep (Suc n) s = [s]" by (rule py_split_no_sep)
    then show ?thesis using False by (simp add: count_list_0_iff del: py_split.simps)
  next
    case True
    then obtain w rest where s: "s = w @ sep # rest" and w: "sep \<notin> set w"
      by (meson split_list_first)
    then have "count_list w sep = 0" by (simp add: count_list_0_iff)
    then show ?thesis using Suc.IH s w by (simp add: py_split_Suc_sep del: py_split.simps)
  qed
qed

subsection \<open>Reading lines\<close>

text \<open>Universal-newline translation of text mode: \<open>\r\n\<close> and a lone \<open>\r\<close> read as \<open>\n\<close>.\<close>

fun universal_newlines :: "string \<Rightarrow> string" where
  "universal_newlines [] = []"
| "universal_newlines [c] = [if c = CR then LF else c]"
| "universal_newlines (c # d # cs) =
     (if c = CR \<and> d = LF then LF # universal_newlines cs
      else (if c = CR then LF else c) # universal_newlines (d # cs))"

text \<open>\<open>file.readlines()\<close>: each line keeps its \<open>\n\<close>; the last one may lack it.\<close>

function split_lines :: "string \<Rightarrow> string list" where
  "split_lines s =
     (if s = [] then []
      else let l = takeWhile (\<lambda>c. c \<noteq> LF) s; r = dropWhile (\<lambda>c. c \<noteq> LF) s in
        if r = [] then [l] else (l @ [LF]) # split_lines (tl r))"
  by pat_completeness auto
termination
proof (relation "measure length")
  fix s :: string and l r
  assume a: "s \<noteq> []" "r = dropWhile (\<lambda>c. c \<noteq> LF) s" "r \<noteq> []"
  have "length r \<le> length s" using a(2) length_dropWhile_le by metis
  moreover have "0 < length s" using a(1) by simp
  ultimately have "length r - 1 < length s" by linarith
  then show "(tl r, s) \<in> measure length" by simp
qed auto

definition readlines :: "string \<Rightarrow> string list" where
  "readlines text = split_lines (universal_newlines text)"

lemma split_lines_Nil [simp]: "split_lines [] = []"
  by (simp add: split_lines.simps)

lemma split_lines_last:
  "LF \<notin> set x \<Longrightarrow> x \<noteq> [] \<Longrightarrow> split_lines x = [x]"
  by (subst split_lines.simps) (simp add: takeWhile_dropWhile_none del: dropWhile_eq_Nil_conv)

lemma split_lines_LF:
  "LF \<notin> set x \<Longrightarrow> split_lines (x @ LF # rest) = (x @ [LF]) # split_lines rest"
  by (subst split_lines.simps) (simp add: takeWhile_dropWhile_first del: dropWhile_eq_Nil_conv)

declare split_lines.simps [simp del]

text \<open>
  Induction along the lines of a text: the text is empty, one unterminated line, or a
  first line up to its \<open>\n\<close> followed by the rest.
\<close>

lemma split_lines_induct [case_names Nil Last LF]:
  assumes "P []"
    and "\<And>x. LF \<notin> set x \<Longrightarrow> x \<noteq> [] \<Longrightarrow> P x"
    and "\<And>x rest. LF \<notin> set x \<Longrightarrow> P rest \<Longrightarrow> P (x @ LF # rest)"
  shows "P s"
proof (induction s rule: length_induct)
  case (1 s)
  show ?case
  proof (cases "LF \<in> set s")
    case True
    then obtain x rest where s: "s = x @ LF # rest" and x: "LF \<notin> set x"
      by (meson split_list_first)
    then have "P rest" using "1.IH" by simp
    then show ?thesis using assms(3) s x by simp
  next
    case False
    then show ?thesis using assms(1,2) by (cases "s = []") auto
  qed
qed

text \<open>Every line read is a run without \<open>\n\<close>, optionally followed by one \<open>\n\<close>.\<close>

lemma split_lines_shape:
  "l \<in> set (split_lines s) \<Longrightarrow> \<exists>x. LF \<notin> set x \<and> (l = x \<or> l = x @ [LF])"
  by (induction s rule: split_lines_induct) (auto simp: split_lines_last split_lines_LF)

lemma split_lines_strip_no_LF:
  "l \<in> set (split_lines s) \<Longrightarrow> LF \<notin> set (py_strip l)"
  using split_lines_shape set_py_strip py_strip_snoc_space
  by (metis py_isspace_simps(2) subsetD)

text \<open>A character-wise equation for \<open>split_lines\<close>, used to evaluate it on literals.\<close>

lemma split_lines_Cons:
  "split_lines (c # s) =
     (if c = LF then [LF] # split_lines s
      else case split_lines s of [] \<Rightarrow> [[c]] | l # ls \<Rightarrow> (c # l) # ls)"
proof (cases "c = LF")
  case True
  then show ?thesis using split_lines_LF [of "[]" s] by simp
next
  case False
  show ?thesis
  proof (cases "LF \<in> set s")
    case True
    then obtain x rest where s: "s = x @ LF # rest" and x: "LF \<notin> set x"
      by (meson split_list_first)
    have "split_lines (c # s) = split_lines ((c # x) @ LF # rest)" using s by simp
    also have "\<dots> = ((c # x) @ [LF]) # split_lines rest" using x False by (intro split_lines_LF) simp
    finally show ?thesis using False s x by (simp add: split_lines_LF)
  next
    case nolf: False
    show ?thesis
    proof (cases "s = []")
      case True
      then show ?thesis using False by (simp add: split_lines_last)
    next
      case ne: False
      then show ?thesis using False nolf by (simp add: split_lines_last)
    qed
  qed
qed

lemma length_split_lines:
  "length (split_lines s) \<le> length s"
  by (induction s rule: split_lines_induct) (auto simp: split_lines_last split_lines_LF Suc_le_eq)

subsection \<open>Decimal digits\<close>

text \<open>The value of a string of decimal digits, as \<open>int()\<close> reads it.\<close>

definition digit_value :: "char \<Rightarrow> nat" where
  "digit_value c = of_char c - 48"

definition digits_value :: "string \<Rightarrow> nat" where
  "digits_value s = foldl (\<lambda>n c. 10 * n + digit_value c) 0 s"

text \<open>\<open>str(n)\<close> and f-string formatting of a non-negative \<open>int\<close>.\<close>

fun py_str_nat :: "nat \<Rightarrow> string" where
  "py_str_nat n =
     (if n < 10 then [char_of (48 + n)] else py_str_nat (n div 10) @ [char_of (48 + n mod 10)])"

declare py_str_nat.simps [simp del]

lemma digit_value_char_of: "(d::nat) < 10 \<Longrightarrow> digit_value (char_of (48 + d)) = d"
  by (simp add: digit_value_def of_char_of)

lemma digits_value_snoc:
  "digits_value (s @ [c]) = 10 * digits_value s + digit_value c"
  by (simp add: digits_value_def)

lemma re_digit_char_of: "(d::nat) < 10 \<Longrightarrow> re_digit (char_of (48 + d))"
  by (simp add: re_digit_def of_char_of)

lemma py_str_nat_digits: "\<forall>c \<in> set (py_str_nat n). re_digit c"
proof (induction n rule: py_str_nat.induct)
  case (1 n)
  then show ?case
    by (subst py_str_nat.simps) (auto simp: re_digit_char_of)
qed

subsection \<open>\<open>str.lower()\<close> and \<open>round\<close>\<close>

text \<open>\<open>str.lower()\<close> below 256: ASCII capitals and the Latin-1 capitals except the sign of multiplication.\<close>

definition py_lower_char :: "char \<Rightarrow> char" where
  "py_lower_char c = (let n = of_char c :: nat in
     if (65 \<le> n \<and> n \<le> 90) \<or> (192 \<le> n \<and> n \<le> 222 \<and> n \<noteq> 215) then char_of (n + 32) else c)"

definition py_lower :: "string \<Rightarrow> string" where
  "py_lower s = map py_lower_char s"

text \<open>
  \<open>round(x, d)\<close> and the \<open>:.df\<close> format: to \<open>d\<close> decimals, ties to even, on the exact
  value (the binary float representation of \<open>x\<close> is not modelled).
\<close>

definition py_round :: "nat \<Rightarrow> real \<Rightarrow> real" where
  "py_round d x =
     (let y = x * 10 ^ d; f = \<lfloor>y\<rfloor>; r = y - of_int f
      in of_int (if r < 1 / 2 \<or> (r = 1 / 2 \<and> even f) then f else f + 1) / 10 ^ d)"

subsection \<open>\<open>int()\<close> on a string\<close>

text \<open>
  \<open>int(s)\<close> for base 10: surrounding whitespace, an optional sign, and decimal digits
  with single underscores between them; anything else raises \<open>ValueError\<close> (\<open>None\<close>).
\<close>

definition int_digits_ok :: "string \<Rightarrow> bool" where
  "int_digits_ok ds \<longleftrightarrow>
     ds \<noteq> [] \<and> re_digit (hd ds) \<and> re_digit (last ds) \<and>
     (\<forall>c \<in> set ds. re_digit c \<or> c = CHR ''_'') \<and> \<not> sublist ''__'' ds"

definition py_int :: "string \<Rightarrow> int option" where
  "py_int s =
     (let t = py_strip s;
          (neg, ds) = (case t of [] \<Rightarrow> (False, [])
                       | c # r \<Rightarrow> if c = CHR ''-'' then (True, r)
                                  else if c = CHR ''+'' then (False, r) else (False, t))
      in if int_digits_ok ds
         then Some ((if neg then -1 else 1) * int (digits_value (filter (\<lambda>c. c \<noteq> CHR ''_'') ds)))
         else None)"

lemma py_round_int: "py_round d (of_int k) = of_int k"
  by (simp add: py_round_def Let_def)


subsection \<open>Round trips\<close>

lemma digits_value_py_str_nat: "digits_value (py_str_nat n) = n"
proof (induction n rule: py_str_nat.induct)
  case (1 n)
  show ?case
  proof (cases "n < 10")
    case True
    then show ?thesis by (subst py_str_nat.simps) (simp add: digits_value_def digit_value_char_of)
  next
    case False
    then have "digits_value (py_str_nat n) = 10 * (n div 10) + n mod 10"
      using "1.IH" by (subst py_str_nat.simps) (simp add: digits_value_snoc digit_value_char_of)
    then show ?thesis by simp
  qed
qed

lemma py_strip_no_space: "\<forall>c \<in> set s. \<not> py_isspace c \<Longrightarrow> py_strip s = s"
proof -
  assume a: "\<forall>c \<in> set s. \<not> py_isspace c"
  then have "dropWhile py_isspace s = s" by (cases s) auto
  moreover have "dropWhile py_isspace (rev s) = rev s" using a by (cases "rev s") auto
  ultimately show ?thesis by (simp add: py_strip_def)
qed

lemma py_str_nat_nonempty: "py_str_nat n \<noteq> []"
  by (subst py_str_nat.simps) simp

lemma re_digit_not_space: "re_digit c \<Longrightarrow> \<not> py_isspace c"
  by (auto simp: re_digit_def py_isspace_def Let_def)

lemma re_digit_sign: "re_digit c \<Longrightarrow> c \<noteq> CHR ''-'' \<and> c \<noteq> CHR ''+'' \<and> c \<noteq> CHR ''_''"
  by (auto simp: re_digit_def)

lemma sublist_set: "sublist xs ys \<Longrightarrow> set xs \<subseteq> set ys"
  by (auto simp: sublist_def)

lemma py_int_str_roundtrip:
  "py_int (py_str_nat n) = Some (int n) \<and> py_int (CHR ''-'' # py_str_nat n) = Some (- int n)"
proof -
  let ?s = "py_str_nat n"
  have dig: "\<forall>c \<in> set ?s. re_digit c" by (rule py_str_nat_digits)
  have ne: "?s \<noteq> []" by (rule py_str_nat_nonempty)
  have ok: "int_digits_ok ?s"
  proof -
    have "\<not> sublist ''__'' ?s"
      using dig re_digit_sign sublist_set by fastforce
    then show ?thesis using dig ne by (simp add: int_digits_ok_def)
  qed
  have filt: "filter (\<lambda>c. c \<noteq> CHR ''_'') ?s = ?s" using dig re_digit_sign by (simp add: filter_id_conv)
  have s1: "py_strip ?s = ?s" using dig re_digit_not_space by (intro py_strip_no_space) blast
  have s2: "py_strip (CHR ''-'' # ?s) = CHR ''-'' # ?s"
    using dig re_digit_not_space by (intro py_strip_no_space) (auto simp: py_isspace_def)
  obtain c r where cr: "?s = c # r" using ne by (cases ?s) auto
  have c: "c \<noteq> CHR ''-'' \<and> c \<noteq> CHR ''+''" using dig cr re_digit_sign by simp
  have sgn: "(case ?s of [] \<Rightarrow> (False, [])
              | c # r \<Rightarrow> if c = CHR ''-'' then (True, r)
                         else if c = CHR ''+'' then (False, r) else (False, ?s)) = (False, ?s)"
    using cr c by simp
  have "py_int ?s = Some (int n)"
    unfolding py_int_def Let_def s1 sgn using ok filt by (simp add: digits_value_py_str_nat)
  moreover have "py_int (CHR ''-'' # ?s) = Some (- int n)"
    unfolding py_int_def Let_def s2 using ok filt by (simp add: digits_value_py_str_nat)
  ultimately show ?thesis by simp
qed

lemma py_round_percent:
  assumes "0 \<le> x" and "x \<le> 100"
  shows "0 \<le> py_round d x \<and> py_round d x \<le> 100"
proof -
  define y where "y = x * 10 ^ d"
  define f where "f = \<lfloor>y\<rfloor>"
  have y: "0 \<le> y" "y \<le> 100 * 10 ^ d" using assms by (simp_all add: y_def)
  have f: "0 \<le> f" "of_int f \<le> y" "y < of_int f + 1" using y(1) by (simp_all add: f_def)
  have c: "(100 * 10 ^ d :: real) = of_int (100 * 10 ^ d)" by simp
  have "f \<le> \<lfloor>(100 * 10 ^ d :: real)\<rfloor>" unfolding f_def using y(2) by (rule floor_mono)
  then have f_le: "f \<le> 100 * 10 ^ d" unfolding c floor_of_int .
  have up: "y - of_int f \<noteq> 0 \<Longrightarrow> f + 1 \<le> 100 * 10 ^ d"
  proof -
    assume "y - of_int f \<noteq> 0"
    then have "of_int f < y" using f(2) by simp
    then have "of_int f < (100 * 10 ^ d :: real)" using y(2) by linarith
    then have "f < 100 * 10 ^ d" unfolding c of_int_less_iff .
    then show ?thesis by simp
  qed
  let ?g = "if y - of_int f < 1 / 2 \<or> (y - of_int f = 1 / 2 \<and> even f) then f else f + 1"
  have g: "0 \<le> ?g" "?g \<le> 100 * 10 ^ d" using f(1) f_le up by auto
  have "py_round d x = of_int ?g / 10 ^ d" by (simp add: py_round_def Let_def y_def f_def)
  moreover have "0 \<le> (of_int ?g :: real)" using g(1) by simp
  moreover have "(of_int ?g :: real) \<le> 100 * 10 ^ d" unfolding c of_int_le_iff by (rule g(2))
  ultimately show ?thesis by (simp add: divide_le_eq)
qed

lemma py_split_numeral [pipeline_simps]:
  "py_split sep (numeral k) s =
     (let w = takeWhile (\<lambda>c. c \<noteq> sep) s; r = dropWhile (\<lambda>c. c \<noteq> sep) s in
      if r = [] then [w] else w # py_split sep (pred_numeral k) (tl r))"
  by (simp only: numeral_eq_Suc py_split.simps(2))

text \<open>Evaluation of \<open>str(n)\<close> on literals only, so that it waits for its argument to be computed.\<close>

lemma py_str_nat_numeral [pipeline_simps]:
  "py_str_nat (numeral k) =
     (if numeral k < (10::nat) then [char_of (48 + numeral k :: nat)]
      else py_str_nat (numeral k div 10) @ [char_of (48 + numeral k mod 10 :: nat)])"
  by (rule py_str_nat.simps)

lemma py_str_nat_0 [pipeline_simps]: "py_str_nat 0 = ''0''"
  by (simp add: py_str_nat.simps char_of_def bit_0)

lemma py_str_nat_Suc [pipeline_simps]:
  "py_str_nat (Suc n) =
     (if Suc n < 10 then [char_of (48 + Suc n)]
      else py_str_nat (Suc n div 10) @ [char_of (48 + Suc n mod 10)])"
  by (rule py_str_nat.simps)

lemmas py_str_eval [pipeline_simps] = char_of_def bit_0

declare py_isspace_def [pipeline_simps] re_digit_def [pipeline_simps] re_word_def [pipeline_simps]
  py_strip_def [pipeline_simps] readlines_def [pipeline_simps] split_lines_Cons [pipeline_simps]
  digits_value_def [pipeline_simps] digit_value_def [pipeline_simps] py_lower_def [pipeline_simps]
  py_lower_char_def [pipeline_simps] py_round_def [pipeline_simps] int_digits_ok_def [pipeline_simps]
  py_int_def [pipeline_simps] sublist_Cons_right [pipeline_simps]

end
