(* ===== verification/LogParser.thy ===== *)
theory LogParser
  imports PyStr "HOL-Library.Sublist"
begin

text \<open>
  The two line parsers of the repository. The split parser
  (\<open>web_anomaly_display.py\<close> lines 14-22, copied in \<open>web_app.py\<close> lines 60-68) strips
  each line and splits it at the first three spaces; the regex parser
  (\<open>web_app.py\<close> lines 15-21) matches
  \<open>(\d{4}-\d{2}-\d{2} \d{2}:\d{2}:\d{2}) (\w+) (.+)\<close> at the start of the stripped line.
  Both yield rows \<open>[timestamp, level, message]\<close> of strings, in file order, and skip
  the lines they do not accept.
\<close>

record raw_entry =
  raw_timestamp :: string
  raw_level :: string
  raw_message :: string

subsection \<open>Split parser\<close>

definition parse_split_line :: "string \<Rightarrow> raw_entry option" where
  "parse_split_line line =
     (let parts = py_split SP 3 (py_strip line) in
      if length parts < 4 then None
      else Some \<lparr>raw_timestamp = parts ! 0 @ '' '' @ parts ! 1,
                 raw_level = parts ! 2, raw_message = parts ! 3\<rparr>)"

primrec parse_split :: "string list \<Rightarrow> raw_entry list" where
  "parse_split [] = []"
| "parse_split (line # lines) =
     (case parse_split_line line of
        None \<Rightarrow> parse_split lines
      | Some e \<Rightarrow> e # parse_split lines)"

subsection \<open>Regex parser\<close>

text \<open>
  \<open>\d{4}-\d{2}-\d{2} \d{2}:\d{2}:\d{2}\<close> as a mask: \<open>D\<close> stands for a digit, every other
  mask character for itself.
\<close>

definition ts_mask :: string where
  "ts_mask = ''DDDD-DD-DD DD:DD:DD''"

definition ts_shape :: "string \<Rightarrow> bool" where
  "ts_shape s = list_all2 (\<lambda>m c. if m = CHR ''D'' then re_digit c else c = m) ts_mask s"

text \<open>
  \<open>re.match\<close> anchors at the start only. \<open>(\w+)\<close> is greedy and must be followed by a
  space; a shorter run would be followed by a word character, so backtracking never
  succeeds where the longest run fails. \<open>(.+)\<close> takes the longest non-empty run of
  characters other than \<open>\n\<close>.
\<close>

definition parse_regex_line :: "string \<Rightarrow> raw_entry option" where
  "parse_regex_line line =
     (let s = py_strip line; ts = take 19 s; rest = drop 19 s in
      if ts_shape ts \<and> rest \<noteq> [] \<and> hd rest = SP then
        let lvl = takeWhile re_word (tl rest); r2 = dropWhile re_word (tl rest) in
        if lvl \<noteq> [] \<and> r2 \<noteq> [] \<and> hd r2 = SP then
          let msg = takeWhile (\<lambda>c. c \<noteq> LF) (tl r2) in
          if msg \<noteq> [] then Some \<lparr>raw_timestamp = ts, raw_level = lvl, raw_message = msg\<rparr>
          else None
        else None
      else None)"

primrec parse_regex :: "string list \<Rightarrow> raw_entry list" where
  "parse_regex [] = []"
| "parse_regex (line # lines) =
     (case parse_regex_line line of
        None \<Rightarrow> parse_regex lines
      | Some e \<Rightarrow> e # parse_regex lines)"

subsection \<open>Split parser: functional behaviour\<close>

lemma parse_split_line_None_iff:
  "parse_split_line l = None \<longleftrightarrow> count_list (py_strip l) SP < 3"
  by (auto simp: parse_split_line_def Let_def length_py_split min_def)

lemma py_split_four:
  assumes "3 \<le> count_list s SP"
  obtains a b c d where "py_split SP 3 s = [a, b, c, d]"
    and "s = a @ SP # b @ SP # c @ SP # d"
proof -
  have "length (py_split SP 3 s) = 4" using assms by (simp add: length_py_split)
  then obtain a b c d where p: "py_split SP 3 s = [a, b, c, d]"
    by (auto simp: length_Suc_conv numeral_eq_Suc)
  have "py_join SP [a, b, c, d] = s" using py_split_join [of SP 3 s] p by simp
  then have "s = a @ SP # b @ SP # c @ SP # d" by simp
  with p that show ?thesis by blast
qed

lemma parse_split_line_Some:
  assumes "parse_split_line l = Some e"
  shows "py_strip l = raw_timestamp e @ SP # raw_level e @ SP # raw_message e"
proof -
  have "3 \<le> count_list (py_strip l) SP"
    using assms parse_split_line_None_iff by (metis not_le option.simps(3))
  then obtain a b c d where p: "py_split SP 3 (py_strip l) = [a, b, c, d]"
    and s: "py_strip l = a @ SP # b @ SP # c @ SP # d"
    by (rule py_split_four)
  have "e = \<lparr>raw_timestamp = a @ '' '' @ b, raw_level = c, raw_message = d\<rparr>"
    using assms p by (simp add: parse_split_line_def)
  then show ?thesis using s by simp
qed

text \<open>
  C16: a record of the split parser has a non-empty message that ends in a non-space
  character: \<open>strip()\<close> removes the trailing whitespace of the message along with the
  line terminator, so \<open>message_length\<close> never counts it.
\<close>

theorem parse_split_line_message:
  assumes "parse_split_line l = Some e"
  shows "raw_message e \<noteq> [] \<and> \<not> py_isspace (last (raw_message e))"
proof -
  have s: "py_strip l = raw_timestamp e @ SP # raw_level e @ SP # raw_message e"
    using assms by (rule parse_split_line_Some)
  then have ne: "py_strip l \<noteq> []" by simp
  have "\<not> py_isspace (last (py_strip l))" using ne by (rule py_strip_last)
  moreover have "raw_message e \<noteq> []"
  proof
    assume "raw_message e = []"
    then have "last (py_strip l) = SP" using s by simp
    then show False using calculation by simp
  qed
  ultimately show ?thesis using s by simp
qed

text \<open>
  C13: the split parser keeps exactly the lines that hold at least three single spaces
  after \<open>strip()\<close> (\<open>split(" ", 3)\<close> then yields four parts) and skips the others, so
  it never yields more records than lines.
\<close>

theorem parse_split_length:
  "length (parse_split ls) = length (filter (\<lambda>l. 3 \<le> count_list (py_strip l) SP) ls)"
proof (induction ls)
  case Nil
  then show ?case by simp
next
  case (Cons l ls)
  then show ?case
    using parse_split_line_None_iff [of l] by (cases "parse_split_line l") auto
qed

lemma parse_split_append:
  "parse_split (xs @ ys) = parse_split xs @ parse_split ys"
  by (induction xs) (auto split: option.splits)

lemma parse_regex_append:
  "parse_regex (xs @ ys) = parse_regex xs @ parse_regex ys"
  by (induction xs) (auto split: option.splits)

subsection \<open>Regex parser against split parser\<close>

text \<open>A relation that preserves one value in both directions preserves membership of it.\<close>

lemma list_all2_member_iff:
  assumes "list_all2 R xs ys" and "\<And>a b. R a b \<Longrightarrow> (b = x \<longleftrightarrow> a = x)"
  shows "x \<in> set ys \<longleftrightarrow> x \<in> set xs"
  using assms(1) by (induction rule: list_all2_induct) (auto dest: assms(2))

lemma ts_shape_rel_SP:
  "(if m = CHR ''D'' then re_digit c else c = m) \<Longrightarrow> (c = SP \<longleftrightarrow> m = SP)"
  by (auto split: if_splits dest: re_digit_not_SP)

text \<open>The timestamp group holds exactly one space, between date and time.\<close>

lemma ts_shape_split:
  assumes "ts_shape ts"
  shows "ts = take 10 ts @ SP # drop 11 ts \<and> SP \<notin> set (take 10 ts) \<and> SP \<notin> set (drop 11 ts)"
proof -
  have rel: "list_all2 (\<lambda>m c. if m = CHR ''D'' then re_digit c else c = m) ts_mask ts"
    using assms by (simp add: ts_shape_def)
  have len: "length ts = 19" using list_all2_lengthD [OF rel] by (simp add: ts_mask_def)
  have "SP \<notin> set (take 10 ts)"
    using list_all2_member_iff [OF list_all2_takeI [OF rel, of 10] ts_shape_rel_SP]
    by (simp add: ts_mask_def)
  moreover have "SP \<notin> set (drop 11 ts)"
    using list_all2_member_iff [OF list_all2_dropI [OF rel, of 11] ts_shape_rel_SP]
    by (simp add: ts_mask_def)
  moreover have "ts ! 10 = SP"
    using list_all2_nthD [OF rel, of 10] len by (simp add: ts_mask_def)
  moreover have "ts = take 10 ts @ ts ! 10 # drop 11 ts"
    using len id_take_nth_drop [of 10 ts] by simp
  ultimately show ?thesis by simp
qed

lemma parse_regex_line_Some:
  assumes "parse_regex_line l = Some e"
  shows "\<exists>r3. py_strip l = raw_timestamp e @ SP # raw_level e @ SP # r3
           \<and> raw_message e = takeWhile (\<lambda>c. c \<noteq> LF) r3
           \<and> ts_shape (raw_timestamp e) \<and> raw_level e \<noteq> [] \<and> (\<forall>c \<in> set (raw_level e). re_word c)"
proof -
  let ?s = "py_strip l"
  let ?rest = "drop 19 ?s"
  let ?lvl = "takeWhile re_word (tl ?rest)"
  let ?r2 = "dropWhile re_word (tl ?rest)"
  have c1: "ts_shape (take 19 ?s)" "?rest \<noteq> []" "hd ?rest = SP"
    and c2: "?lvl \<noteq> []" "?r2 \<noteq> []" "hd ?r2 = SP"
    and e: "e = \<lparr>raw_timestamp = take 19 ?s, raw_level = ?lvl,
                 raw_message = takeWhile (\<lambda>c. c \<noteq> LF) (tl ?r2)\<rparr>"
    using assms by (auto simp: parse_regex_line_def Let_def split: if_splits)
  have s1: "?s = take 19 ?s @ SP # tl ?rest"
    using c1 by (metis append_take_drop_id list.collapse)
  have s2: "tl ?rest = ?lvl @ SP # tl ?r2"
    using c2 by (metis list.collapse takeWhile_dropWhile_id)
  have "?s = take 19 ?s @ SP # ?lvl @ SP # tl ?r2"
    using s1 s2 by metis
  then have A: "py_strip l = raw_timestamp e @ SP # raw_level e @ SP # tl ?r2"
    unfolding e by (simp only: raw_entry.simps)
  have B: "raw_message e = takeWhile (\<lambda>c. c \<noteq> LF) (tl ?r2)"
    unfolding e by (simp only: raw_entry.simps)
  have C: "ts_shape (raw_timestamp e)" "raw_level e \<noteq> []"
    using c1 c2 unfolding e by simp_all
  have D: "\<forall>c \<in> set (raw_level e). re_word c"
    unfolding e by (auto dest: set_takeWhileD)
  show ?thesis using A B C D by blast
qed

lemma regex_line_split:
  assumes "parse_regex_line l = Some e" and "LF \<notin> set (py_strip l)"
  shows "parse_split_line l = Some e"
proof -
  obtain r3 where s: "py_strip l = raw_timestamp e @ SP # raw_level e @ SP # r3"
    and msg: "raw_message e = takeWhile (\<lambda>c. c \<noteq> LF) r3"
    and ts: "ts_shape (raw_timestamp e)"
    and lvl: "\<forall>c \<in> set (raw_level e). re_word c"
    using parse_regex_line_Some [OF assms(1)] by blast
  let ?d = "take 10 (raw_timestamp e)" and ?t = "drop 11 (raw_timestamp e)"
  have tsplit: "raw_timestamp e = ?d @ SP # ?t" "SP \<notin> set ?d" "SP \<notin> set ?t"
    using ts_shape_split [OF ts] by auto
  have "\<forall>c \<in> set r3. c \<noteq> LF" using assms(2) s by auto
  then have r3: "raw_message e = r3" using msg by (simp add: takeWhile_eq_all_conv)
  have "SP \<notin> set (raw_level e)" using lvl re_word_not_SP by blast
  let ?L = "raw_level e"
  have sl: "py_strip l = ?d @ SP # ?t @ SP # ?L @ SP # r3"
    using s tsplit(1) by (metis append.assoc append_Cons)
  have p1: "py_split SP 1 (?L @ SP # r3) = [?L, r3]"
    using py_split_Suc_sep [of SP ?L 0 r3] \<open>SP \<notin> set ?L\<close> by (simp del: py_split.simps(2))
  have p2: "py_split SP 2 (?t @ SP # ?L @ SP # r3) = [?t, ?L, r3]"
    using py_split_Suc_sep [of SP ?t 1 "?L @ SP # r3"] tsplit(3) p1 by (simp add: numeral_2_eq_2 del: py_split.simps)
  have "py_split SP 3 (py_strip l) = [?d, ?t, ?L, r3]"
    using py_split_Suc_sep [of SP ?d 2 "?t @ SP # ?L @ SP # r3"] tsplit(2) p2 sl
    by (simp add: numeral_3_eq_3 numeral_2_eq_2 del: py_split.simps)
  then have split: "parse_split_line l = Some \<lparr>raw_timestamp = ?d @ '' '' @ ?t, raw_level = ?L, raw_message = r3\<rparr>"
    by (simp add: parse_split_line_def)
  have "e = \<lparr>raw_timestamp = ?d @ '' '' @ ?t, raw_level = ?L, raw_message = r3\<rparr>"
    by (rule raw_entry.equality) (simp_all add: r3 tsplit(1) [symmetric])
  then show ?thesis using split by metis
qed


lemma parse_regex_subseq_lines:
  "\<forall>l \<in> set ls. LF \<notin> set (py_strip l) \<Longrightarrow> subseq (parse_regex ls) (parse_split ls)"
proof (induction ls)
  case (Cons l ls)
  then have IH: "subseq (parse_regex ls) (parse_split ls)" by simp
  show ?case
  proof (cases "parse_regex_line l")
    case None
    then show ?thesis using IH by (cases "parse_split_line l") auto
  next
    case (Some e)
    then have "parse_split_line l = Some e" using Cons.prems by (simp add: regex_line_split)
    then show ?thesis using Some IH by simp
  qed
qed simp

text \<open>
  C7: the two parsers agree on what they both accept: the records the regex parser of
  \<open>get_basic_analysis\<close> reads from a file are, in order, among the records the split
  parser of \<open>get_ai_analysis\<close> reads from it, field by field.
\<close>

theorem parse_regex_subseq_split:
  "subseq (parse_regex (readlines text)) (parse_split (readlines text))"
  by (rule parse_regex_subseq_lines) (simp add: readlines_def split_lines_strip_no_LF)

declare parse_split_line_def [pipeline_simps] parse_regex_line_def [pipeline_simps]
  ts_shape_def [pipeline_simps] ts_mask_def [pipeline_simps]

end
