(* ===== verification/Timestamps.thy ===== *)
theory Timestamps
  imports LogParser
begin

text \<open>
  \<open>pd.to_datetime\<close> on the timestamp column (\<open>web_anomaly_display.py\<close> line 25,
  \<open>web_app.py\<close> lines 25 and 71) for strings of the log format
  \<open>YYYY-MM-DD HH:MM:SS\<close>, and \<open>Series.dt.floor("30s")\<close> (\<open>web_app.py\<close> line 28).
  A pandas Timestamp is an int64 count of nanoseconds since 1970-01-01 (proleptic
  Gregorian, no leap seconds) with the minimum value reserved for NaT; parsed log
  timestamps are whole seconds, so the model keeps seconds and checks the nanosecond
  range where pandas does: at parsing (\<open>OutOfBoundsDatetime\<close>) and at rounding (the
  overflow-checked \<open>value - value % unit\<close>).
\<close>

record log_record =
  timestamp :: timestamp
  level :: string
  message :: string

subsection \<open>Calendar\<close>

definition is_leap :: "int \<Rightarrow> bool" where
  "is_leap y \<longleftrightarrow> 4 dvd y \<and> (\<not> 100 dvd y \<or> 400 dvd y)"

definition month_days :: "int \<Rightarrow> nat list" where
  "month_days y = [31, if is_leap y then 29 else 28, 31, 30, 31, 30, 31, 31, 30, 31, 30, 31]"

definition days_in_month :: "int \<Rightarrow> nat \<Rightarrow> nat" where
  "days_in_month y m = month_days y ! (m - 1)"

text \<open>Days from 1970-01-01 to the given date; leap days counted up to the previous year.\<close>

definition days_from_civil :: "int \<Rightarrow> nat \<Rightarrow> nat \<Rightarrow> int" where
  "days_from_civil y m d =
     365 * (y - 1970) + ((y - 1) div 4 - 492) - ((y - 1) div 100 - 19) + ((y - 1) div 400 - 4)
     + int (sum_list (take (m - 1) (month_days y))) + int d - 1"

definition epoch_seconds :: "int \<Rightarrow> nat \<Rightarrow> nat \<Rightarrow> nat \<Rightarrow> nat \<Rightarrow> nat \<Rightarrow> timestamp" where
  "epoch_seconds y mo d h mi s =
     days_from_civil y mo d * 86400 + int h * 3600 + int mi * 60 + int s"

text \<open>
  The instants pandas can hold: \<open>Timestamp.min\<close> is \<open>-(2^63 - 1)\<close> ns
  (1677-09-21 00:12:43.145224193), \<open>Timestamp.max\<close> is \<open>2^63 - 1\<close> ns.
\<close>

definition ns_in_range :: "timestamp \<Rightarrow> bool" where
  "ns_in_range t \<longleftrightarrow> - (2 ^ 63 - 1) \<le> t * 10 ^ 9 \<and> t * 10 ^ 9 \<le> 2 ^ 63 - 1"

subsection \<open>Parsing\<close>

definition parse_timestamp :: "string \<Rightarrow> error + timestamp" where
  "parse_timestamp s =
     (if ts_shape s then
        let y = int (digits_value (take 4 s));
            mo = digits_value (take 2 (drop 5 s));
            d = digits_value (take 2 (drop 8 s));
            h = digits_value (take 2 (drop 11 s));
            mi = digits_value (take 2 (drop 14 s));
            se = digits_value (take 2 (drop 17 s))
        in if 1 \<le> mo \<and> mo \<le> 12 \<and> 1 \<le> d \<and> d \<le> days_in_month y mo \<and> h < 24 \<and> mi < 60 \<and> se < 60
           then (let t = epoch_seconds y mo d h mi se in
                 if ns_in_range t then Inr t else Inl (OutOfBoundsDatetime s))
           else Inl (ParseError s)
      else Inl (ParseError s))"

text \<open>
  \<open>df["timestamp"] = pd.to_datetime(df["timestamp"])\<close>: the whole column converts or
  the call raises, at the first element that fails.
\<close>

definition to_datetime :: "raw_entry list \<Rightarrow> error + log_record list" where
  "to_datetime rows =
     map_r (\<lambda>e. bind_r (parse_timestamp (raw_timestamp e))
                  (\<lambda>t. Inr \<lparr>timestamp = t, level = raw_level e, message = raw_message e\<rparr>)) rows"

subsection \<open>Rounding down to a 30-second bucket\<close>

text \<open>
  pandas floors the nanosecond value, \<open>value - value % unit\<close> with Python's \<open>%\<close>
  (the sign of the divisor, as HOL's \<open>mod\<close>), under an overflow check that raises
  when the result leaves int64.
\<close>

definition dt_floor_30s :: "timestamp \<Rightarrow> error + timestamp" where
  "dt_floor_30s t =
     (let ns = t * 10 ^ 9; unit = 30 * 10 ^ 9; r = ns - ns mod unit in
      if - (2 ^ 63) \<le> r then Inr (r div 10 ^ 9) else Inl (RoundOverflow t))"

lemma ns_floor_eq: "t * 10 ^ 9 - t * 10 ^ 9 mod (30 * 10 ^ 9) = (t - t mod 30) * (10 ^ 9 :: int)"
  by (simp add: mult_mod_left algebra_simps)

lemma dt_floor_30s_eq:
  "dt_floor_30s t = (if - 9223372020 \<le> t then Inr (t - t mod 30) else Inl (RoundOverflow t))"
proof -
  have "(- (2 ^ 63) \<le> (t - t mod 30) * (10 ^ 9 :: int)) \<longleftrightarrow> - 9223372020 \<le> t"
  proof
    assume "- (2 ^ 63) \<le> (t - t mod 30) * (10 ^ 9 :: int)"
    then have "- 9223372036 \<le> t - t mod 30" by simp
    moreover have "30 dvd (t - t mod 30)" by (simp add: minus_mod_eq_mult_div)
    ultimately have "- 9223372020 \<le> t - t mod 30" by presburger
    then show "- 9223372020 \<le> t" using pos_mod_sign [of 30 t] by linarith
  next
    assume "- 9223372020 \<le> t"
    moreover have "30 dvd (t - t mod 30)" by (simp add: minus_mod_eq_mult_div)
    ultimately have "- 9223372020 \<le> t - t mod 30" by presburger
    then show "- (2 ^ 63) \<le> (t - t mod 30) * (10 ^ 9 :: int)" by simp
  qed
  then show ?thesis unfolding dt_floor_30s_def Let_def ns_floor_eq by simp
qed


text \<open>
  C14: when \<open>dt.floor("30s")\<close> succeeds, it yields the start of the epoch-aligned
  30-second window holding the instant.
\<close>

theorem dt_floor_30s_window:
  assumes "dt_floor_30s t = Inr b"
  shows "30 dvd b \<and> b \<le> t \<and> t < b + 30"
proof -
  have b: "b = t - t mod 30" using assms by (simp add: dt_floor_30s_eq split: if_splits)
  have "30 dvd b" unfolding b by (simp add: minus_mod_eq_mult_div)
  moreover have "0 \<le> t mod 30" "t mod 30 < 30" by simp_all
  ultimately show ?thesis using b by simp
qed

declare is_leap_def [pipeline_simps] month_days_def [pipeline_simps] days_in_month_def [pipeline_simps]
  days_from_civil_def [pipeline_simps] epoch_seconds_def [pipeline_simps] ns_in_range_def [pipeline_simps]
  parse_timestamp_def [pipeline_simps] to_datetime_def [pipeline_simps] dt_floor_30s_eq [pipeline_simps]

end
