(* ===== verification/TimeFormat.thy ===== *)
theory TimeFormat
  imports Timestamps
begin

text \<open>
  \<open>Timestamp.strftime('%Y-%m-%d %H:%M:%S')\<close>, with which the program prints a time
  (\<open>web_app.py\<close> line 38, the time of a spike; \<open>web_anomaly_display.py\<close> line 243, the
  time of an anomaly row). The day count is turned into a civil date by walking whole
  years from the start of its 400-year cycle and then whole months, both structural
  recursions; the fields are printed zero-padded. The main result is the round trip
  with \<open>parse_timestamp\<close>: printing an instant pandas can hold and parsing it back
  gives the instant.
\<close>

subsection \<open>Definitions\<close>

definition year_len :: "int \<Rightarrow> int" where
  "year_len y = (if is_leap y then 366 else 365)"

definition year_start :: "int \<Rightarrow> int" where
  "year_start y = days_from_civil y 1 1"

text \<open>
  Whole years are walked off from the start of the 400-year cycle holding the day,
  then whole months; a cycle has 146097 days, so 400 steps always reach the year.
\<close>

fun year_walk :: "nat \<Rightarrow> int \<Rightarrow> int \<Rightarrow> int \<times> int" where
  "year_walk 0 y r = (y, r)"
| "year_walk (Suc k) y r = (if r < year_len y then (y, r) else year_walk k (y + 1) (r - year_len y))"

fun month_walk :: "nat list \<Rightarrow> nat \<Rightarrow> int \<Rightarrow> nat \<times> int" where
  "month_walk [] m r = (m, r)"
| "month_walk (d # ds) m r = (if r < int d then (m, r) else month_walk ds (Suc m) (r - int d))"

definition civil_from_days :: "int \<Rightarrow> int \<times> nat \<times> nat" where
  "civil_from_days z =
     (let (y, r) = year_walk 400 (1970 + 400 * (z div 146097)) (z mod 146097);
          (m, r') = month_walk (month_days y) 1 r
      in (y, m, nat r' + 1))"

text \<open>A field printed with \<open>%Y\<close> (width 4) or \<open>%m\<close>, \<open>%d\<close>, \<open>%H\<close>, \<open>%M\<close>, \<open>%S\<close> (width 2), zero-padded.\<close>

definition pad :: "nat \<Rightarrow> nat \<Rightarrow> string" where
  "pad w n = replicate (w - length (py_str_nat n)) CHR ''0'' @ py_str_nat n"

definition strftime_ts :: "timestamp \<Rightarrow> string" where
  "strftime_ts t =
     (let (y, m, d) = civil_from_days (t div 86400); s = nat (t mod 86400)
      in pad 4 (nat y) @ ''-'' @ pad 2 m @ ''-'' @ pad 2 d @ '' '' @
         pad 2 (s div 3600) @ '':'' @ pad 2 (s mod 3600 div 60) @ '':'' @ pad 2 (s mod 60))"

subsection \<open>Calendar arithmetic\<close>

lemma div_step:
  fixes y k :: int
  assumes k: "0 < k"
  shows "y div k - (y - 1) div k = (if k dvd y then 1 else 0)"
proof -
  have "y - 1 = (y mod k - 1) + (y div k) * k" by (simp add: algebra_simps)
  then have "(y - 1) div k = ((y mod k - 1) + (y div k) * k) div k" by (rule arg_cong)
  also have "\<dots> = (y mod k - 1) div k + y div k" using k by simp
  finally have y: "(y - 1) div k = (y mod k - 1) div k + y div k" .
  have r: "0 \<le> y mod k" "y mod k < k" using k by simp_all
  show ?thesis
  proof (cases "k dvd y")
    case True
    then have "y mod k = 0" by simp
    then have "(y - 1) div k = (-1) div k + y div k" using y by simp
    moreover have "(-1 :: int) div k = -1" using k by (simp add: div_eq_minus1)
    ultimately show ?thesis using True by simp
  next
    case False
    then have "y mod k \<noteq> 0" by (simp add: dvd_eq_mod_eq_0)
    then have "0 \<le> y mod k - 1" "y mod k - 1 < k" using r by linarith+
    then have "(y mod k - 1) div k = 0" by (simp add: div_pos_pos_trivial)
    then show ?thesis using False y by simp
  qed
qed
lemma dvd_400_100_4: fixes y :: int shows "400 dvd y \<Longrightarrow> 100 dvd y" "100 dvd y \<Longrightarrow> 4 dvd y"
  using dvd_trans [of 100 400 y] dvd_trans [of 4 100 y] by simp_all

lemma year_start_next:
  "year_start (y + 1) = year_start y + year_len y"
proof -
  have e: "year_start (y + 1) - year_start y =
            365 + (y div 4 - (y - 1) div 4) - (y div 100 - (y - 1) div 100) + (y div 400 - (y - 1) div 400)"
    by (simp add: year_start_def days_from_civil_def)
  have a: "y div 4 - (y - 1) div 4 = (if 4 dvd y then 1 else 0)" by (rule div_step) simp
  have b: "y div 100 - (y - 1) div 100 = (if 100 dvd y then 1 else 0)" by (rule div_step) simp
  have c: "y div 400 - (y - 1) div 400 = (if 400 dvd y then 1 else 0)" by (rule div_step) simp
  have "365 + (y div 4 - (y - 1) div 4) - (y div 100 - (y - 1) div 100) + (y div 400 - (y - 1) div 400) = year_len y"
    unfolding a b c year_len_def is_leap_def using dvd_400_100_4 [of y]
    by (cases "4 dvd y"; cases "100 dvd y"; cases "400 dvd y") simp_all
  then show ?thesis using e by simp
qed

lemma div_shift:
  fixes a :: int
  assumes "0 < b"
  shows "(a + c * b) div b = a div b + c"
  using assms by simp

lemma year_start_400:
  "year_start (y + 400) = year_start y + 146097"
proof -
  have e: "year_start (y + 400) - year_start y =
            146000 + ((399 + y) div 4 - (y - 1) div 4) - ((399 + y) div 100 - (y - 1) div 100)
            + ((399 + y) div 400 - (y - 1) div 400)"
    by (simp add: year_start_def days_from_civil_def)
  have "(399 + y) div 4 = (y - 1) div 4 + 100"
    using div_shift [of 4 "y - 1" 100] by simp
  moreover have "(399 + y) div 100 = (y - 1) div 100 + 4"
    using div_shift [of 100 "y - 1" 4] by simp
  moreover have "(399 + y) div 400 = (y - 1) div 400 + 1"
    using div_shift [of 400 "y - 1" 1] by simp
  ultimately show ?thesis using e by simp
qed

lemma length_month_days [simp]: "length (month_days y) = 12"
  by (simp add: month_days_def)

lemma year_len_pos: "0 < year_len y"
  by (simp add: year_len_def)

lemma sum_month_days: "int (sum_list (month_days y)) = year_len y"
  by (simp add: month_days_def year_len_def)


lemma days_from_civil_day:
  "days_from_civil y m d = days_from_civil y m 1 + int d - 1"
  by (simp add: days_from_civil_def)

lemma days_from_civil_first_month: "days_from_civil y (Suc 0) 1 = year_start y"
  by (simp add: year_start_def)

lemma days_from_civil_next_month:
  assumes "1 \<le> m" and "m \<le> 12"
  shows "days_from_civil y (Suc m) 1 = days_from_civil y m 1 + int (month_days y ! (m - 1))"
proof -
  have "m - 1 < length (month_days y)" using assms by simp
  then have "take (Suc (m - 1)) (month_days y) = take (m - 1) (month_days y) @ [month_days y ! (m - 1)]"
    by (rule take_Suc_conv_app_nth)
  moreover have "Suc (m - 1) = m" using assms by simp
  ultimately have "take m (month_days y) = take (m - 1) (month_days y) @ [month_days y ! (m - 1)]" by simp
  then show ?thesis by (simp add: days_from_civil_def)
qed

lemma year_start_years:
  "year_start (y + int n) = year_start y + (\<Sum>i<n. year_len (y + int i))"
proof (induction n)
  case (Suc n)
  have "year_start (y + int (Suc n)) = year_start (y + int n + 1)" by (simp add: algebra_simps)
  also have "\<dots> = year_start (y + int n) + year_len (y + int n)" by (rule year_start_next)
  finally show ?case using Suc.IH by simp
qed simp

lemma year_start_mono:
  assumes "a \<le> b"
  shows "year_start a \<le> year_start b"
proof -
  obtain n where "b = a + int n" using assms by (metis le_add_diff_inverse zle_iff_zadd)
  moreover have "0 \<le> (\<Sum>i<n. year_len (a + int i))" using year_len_pos by (simp add: sum_nonneg less_imp_le)
  ultimately show ?thesis by (simp add: year_start_years)
qed

lemma year_start_cycles:
  "year_start (y + 400 * q) = year_start y + 146097 * q"
proof (induction q rule: int_induct [where k = 0])
  case base
  then show ?case by simp
next
  case (step1 i)
  have "year_start (y + 400 * (i + 1)) = year_start ((y + 400 * i) + 400)" by (simp add: algebra_simps)
  also have "\<dots> = year_start (y + 400 * i) + 146097" by (rule year_start_400)
  finally show ?case using step1.IH by (simp add: algebra_simps)
next
  case (step2 i)
  have "year_start (y + 400 * i) = year_start ((y + 400 * (i - 1)) + 400)" by (simp add: algebra_simps)
  also have "\<dots> = year_start (y + 400 * (i - 1)) + 146097" by (rule year_start_400)
  finally show ?case using step2.IH by (simp add: algebra_simps)
qed

lemma year_walk_correct:
  assumes "year_walk k y r = (y', r')" and "0 \<le> r"
    and "r < year_start (y + int k) - year_start y"
  shows "0 \<le> r' \<and> r' < year_len y' \<and> year_start y' + r' = year_start y + r"
  using assms
proof (induction k arbitrary: y r)
  case 0
  then show ?case by simp
next
  case (Suc k)
  show ?case
  proof (cases "r < year_len y")
    case True
    then show ?thesis using Suc.prems by simp
  next
    case False
    have n: "year_start (y + 1) = year_start y + year_len y" by (rule year_start_next)
    have "year_walk k (y + 1) (r - year_len y) = (y', r')" using Suc.prems(1) False by simp
    moreover have "0 \<le> r - year_len y" using False by simp
    moreover have "r - year_len y < year_start (y + 1 + int k) - year_start (y + 1)"
      using Suc.prems(3) n by (simp add: algebra_simps)
    ultimately show ?thesis using Suc.IH n by fastforce
  qed
qed

lemma month_walk_correct:
  assumes "month_walk ds m r = (m', r')" and "ds = drop (m - 1) (month_days y)" and "1 \<le> m"
    and "0 \<le> r" and "r < int (sum_list ds)"
  shows "1 \<le> m' \<and> m' \<le> 12 \<and> 0 \<le> r' \<and> r' < int (days_in_month y m') \<and>
         days_from_civil y m' 1 + r' = days_from_civil y m 1 + r"
  using assms
proof (induction ds arbitrary: m r)
  case Nil
  then show ?case by simp
next
  case (Cons d ds)
  have len: "m - 1 < 12"
  proof (rule ccontr)
    assume "\<not> m - 1 < 12"
    then have "drop (m - 1) (month_days y) = []" by simp
    then show False using Cons.prems(2) by simp
  qed
  have "month_days y ! (m - 1) # drop (Suc (m - 1)) (month_days y) = drop (m - 1) (month_days y)"
    using len by (intro Cons_nth_drop_Suc) simp
  moreover have "Suc (m - 1) = m" using Cons.prems(3) by simp
  ultimately have "d # ds = month_days y ! (m - 1) # drop m (month_days y)" using Cons.prems(2) by simp
  then have d: "d = month_days y ! (m - 1)" and ds: "ds = drop m (month_days y)" by simp_all
  show ?case
  proof (cases "r < int d")
    case True
    then show ?thesis using Cons.prems len d by (simp add: days_in_month_def)
  next
    case False
    have step: "days_from_civil y (Suc m) 1 = days_from_civil y m 1 + int d"
      using days_from_civil_next_month [of m y] len Cons.prems(3) d by simp
    have "month_walk ds (Suc m) (r - int d) = (m', r')" using Cons.prems(1) False by simp
    moreover have "ds = drop (Suc m - 1) (month_days y)" using ds by simp
    moreover have "r - int d < int (sum_list ds)" using Cons.prems(5) by simp
    ultimately show ?thesis using Cons.IH [of "Suc m" "r - int d"] False step by fastforce
  qed
qed


lemma year_start_1970: "year_start 1970 = 0"
  by (simp add: year_start_def days_from_civil_def month_days_def)

lemma civil_from_days_correct:
  assumes "civil_from_days z = (y, m, d)"
  shows "days_from_civil y m d = z \<and> 1 \<le> m \<and> m \<le> 12 \<and> 1 \<le> d \<and> d \<le> days_in_month y m \<and>
         year_start y \<le> z \<and> z < year_start (y + 1)"
proof -
  define q where "q = z div 146097"
  define r0 where "r0 = z mod 146097"
  define y0 where "y0 = 1970 + 400 * q"
  obtain y1 r where yw: "year_walk 400 y0 r0 = (y1, r)" by (cases "year_walk 400 y0 r0") auto
  obtain m1 r' where mw: "month_walk (month_days y1) 1 r = (m1, r')"
    by (cases "month_walk (month_days y1) 1 r") auto
  have "civil_from_days z = (y1, m1, nat r' + 1)"
    using yw mw by (simp add: civil_from_days_def q_def r0_def y0_def)
  then have yy: "y = y1" and mm: "m = m1" and dd: "d = nat r' + 1" using assms by simp_all
  have r0: "0 \<le> r0" "r0 < 146097" by (simp_all add: r0_def)
  have "year_start y0 = 146097 * q" using year_start_cycles [of 1970 q] by (simp add: y0_def year_start_1970)
  then have z: "z = year_start y0 + r0" by (simp add: q_def r0_def)
  have "year_start (y0 + int 400) - year_start y0 = 146097" using year_start_400 [of y0] by simp
  then have yc: "0 \<le> r \<and> r < year_len y1 \<and> year_start y1 + r = year_start y0 + r0"
    using year_walk_correct [OF yw r0(1)] r0(2) by simp
  have "r < int (sum_list (month_days y1))" using yc by (simp add: sum_month_days)
  then have mc: "1 \<le> m1 \<and> m1 \<le> 12 \<and> 0 \<le> r' \<and> r' < int (days_in_month y1 m1) \<and>
                 days_from_civil y1 m1 1 + r' = days_from_civil y1 1 1 + r"
    using month_walk_correct [OF mw _ _ _, of y1] yc by simp
  have "days_from_civil y1 m1 (nat r' + 1) = days_from_civil y1 m1 1 + r'"
    using days_from_civil_day [of y1 m1 "nat r' + 1"] mc by simp
  then have "days_from_civil y m d = z" using mc yc z yy mm dd by (simp add: year_start_def)
  moreover have "year_start y \<le> z \<and> z < year_start (y + 1)"
    using yc z yy year_start_next [of y1] by simp
  moreover have "d \<le> days_in_month y m"
  proof -
    have "r' < int (days_in_month y1 m1)" "0 \<le> r'" using mc by simp_all
    then have "nat r' + 1 \<le> days_in_month y1 m1" by linarith
    then show ?thesis using yy mm dd by simp
  qed
  ultimately show ?thesis using mc yy mm dd by simp
qed



subsection \<open>Printing and reading back\<close>

lemma length_py_str_nat:
  "n < 10 ^ w \<Longrightarrow> 1 \<le> w \<Longrightarrow> length (py_str_nat n) \<le> w"
proof (induction n arbitrary: w rule: py_str_nat.induct)
  case (1 n)
  show ?case
  proof (cases "n < 10")
    case True
    then show ?thesis using "1.prems" by (subst py_str_nat.simps) simp
  next
    case False
    then have w: "2 \<le> w"
      using "1.prems" by (metis less_le_trans nat_less_le not_less_eq_eq numeral_2_eq_2 power_one_right
          power_increasing_iff Suc_1 one_less_numeral_iff semiring_norm(76))
    have "n div 10 < 10 ^ (w - 1)"
      using "1.prems"(1) w by (metis Suc_diff_1 div_less_iff_less_mult less_le_trans mult.commute
          numeral_2_eq_2 power_Suc zero_less_Suc zero_less_numeral)
    then have "length (py_str_nat (n div 10)) \<le> w - 1" using "1.IH" False w by simp
    then show ?thesis using False w by (subst py_str_nat.simps) simp
  qed
qed

lemma pad_length: "n < 10 ^ w \<Longrightarrow> 1 \<le> w \<Longrightarrow> length (pad w n) = w"
  using length_py_str_nat [of n w] by (simp add: pad_def)

lemma pad_digits: "\<forall>c \<in> set (pad w n). re_digit c"
  using py_str_nat_digits [of n] by (auto simp: pad_def re_digit_def)

lemma digits_value_zeros: "digits_value (replicate k CHR ''0'' @ s) = digits_value s"
proof -
  have "foldl (\<lambda>n c. 10 * n + digit_value c) 0 (replicate k CHR ''0'') = 0"
    by (induction k) (simp_all add: digit_value_def)
  then show ?thesis by (simp add: digits_value_def)
qed

lemma pad_value: "digits_value (pad w n) = n"
  by (simp add: pad_def digits_value_zeros digits_value_py_str_nat)


lemma days_in_month_le: "m - 1 < 12 \<Longrightarrow> days_in_month y m \<le> 31"
proof -
  assume "m - 1 < 12"
  then have "days_in_month y m \<in> set (month_days y)" unfolding days_in_month_def by (intro nth_mem) simp
  moreover have "\<forall>k \<in> set (month_days y). k \<le> 31" by (simp add: month_days_def)
  ultimately show ?thesis by blast
qed

lemma list_all2_mask_digits:
  "length a = n \<Longrightarrow> \<forall>c \<in> set a. re_digit c \<Longrightarrow>
   list_all2 (\<lambda>m c. if m = CHR ''D'' then re_digit c else c = m) (replicate n CHR ''D'') a"
  by (auto simp: list_all2_conv_all_nth)

lemma ts_shape_fields:
  assumes "length a = 4" "length b = 2" "length c = 2" "length d = 2" "length e = 2" "length f = 2"
    and "\<forall>x \<in> set (a @ b @ c @ d @ e @ f). re_digit x"
  shows "ts_shape (a @ ''-'' @ b @ ''-'' @ c @ '' '' @ d @ '':'' @ e @ '':'' @ f)"
proof -
  have m: "ts_mask = replicate 4 CHR ''D'' @ ''-'' @ replicate 2 CHR ''D'' @ ''-'' @ replicate 2 CHR ''D'' @ '' '' @
                     replicate 2 CHR ''D'' @ '':'' @ replicate 2 CHR ''D'' @ '':'' @ replicate 2 CHR ''D''"
    by (simp add: ts_mask_def numeral_eq_Suc)
  show ?thesis unfolding ts_shape_def m using assms
    by (intro list_all2_appendI list_all2_mask_digits) auto
qed

lemma strftime_year_bounds:
  assumes "ns_in_range t" and "civil_from_days (t div 86400) = (y, m, d)"
  shows "1000 \<le> y \<and> y < 10000"
proof -
  let ?z = "t div 86400"
  have c: "year_start y \<le> ?z" "?z < year_start (y + 1)" using civil_from_days_correct [OF assms(2)] by simp_all
  have t: "- 9223372036 \<le> t" "t \<le> 9223372036" using assms(1) by (simp_all add: ns_in_range_def)
  have lo: "- 106752 \<le> ?z" using t(1) by simp
  have hi: "?z \<le> 106751" using t(2) by simp
  have "year_start 1001 < - 106752" by (simp add: year_start_def days_from_civil_def month_days_def)
  moreover have "106751 < year_start 10000" by (simp add: year_start_def days_from_civil_def month_days_def)
  moreover have "\<not> y < 1000"
  proof
    assume "y < 1000"
    then have "year_start (y + 1) \<le> year_start 1001" by (intro year_start_mono) simp
    then show False using c(2) lo calculation(1) by simp
  qed
  moreover have "\<not> 10000 \<le> y"
  proof
    assume "10000 \<le> y"
    then have "year_start 10000 \<le> year_start y" by (rule year_start_mono)
    then show False using c(1) hi calculation(2) by simp
  qed
  ultimately show ?thesis by simp
qed


lemma seconds_split:
  fixes s :: nat
  shows "int (s div 3600) * 3600 + int (s mod 3600 div 60) * 60 + int (s mod 60) = int s"
proof -
  have e1: "s mod 3600 div 60 * 60 + s mod 3600 mod 60 = s mod 3600" by (rule div_mult_mod_eq)
  have e2: "s div 3600 * 3600 + s mod 3600 = s" by (rule div_mult_mod_eq)
  have "(60::nat) dvd 3600" by simp
  then have e3: "s mod 3600 mod 60 = s mod 60" by (rule mod_mod_cancel)
  have "s div 3600 * 3600 + s mod 3600 div 60 * 60 + s mod 60 = s" using e1 e2 e3 by linarith
  then have "int (s div 3600 * 3600 + s mod 3600 div 60 * 60 + s mod 60) = int s" by (rule arg_cong)
  then show ?thesis by (simp only: of_nat_add of_nat_mult of_nat_numeral)
qed

text \<open>
  C23: reading back a printed timestamp gives it again: for every instant pandas can
  hold, \<open>pd.to_datetime\<close> of its \<open>strftime('%Y-%m-%d %H:%M:%S')\<close> is the instant itself.
\<close>

theorem strftime_roundtrip:
  assumes "ns_in_range t"
  shows "parse_timestamp (strftime_ts t) = Inr t"
proof -
  obtain y m d where c: "civil_from_days (t div 86400) = (y, m, d)" by (cases "civil_from_days (t div 86400)") auto
  note cc = civil_from_days_correct [OF c]
  have yb: "1000 \<le> y \<and> y < 10000" by (rule strftime_year_bounds [OF assms c])
  define s where "s = nat (t mod 86400)"
  have s: "s < 86400" "int s = t mod 86400" by (simp_all add: s_def)
  define A where "A = pad 4 (nat y)"
  define B where "B = pad 2 m"
  define C where "C = pad 2 d"
  define D where "D = pad 2 (s div 3600)"
  define E where "E = pad 2 (s mod 3600 div 60)"
  define F where "F = pad 2 (s mod 60)"
  have str: "strftime_ts t = A @ ''-'' @ B @ ''-'' @ C @ '' '' @ D @ '':'' @ E @ '':'' @ F"
    by (simp add: strftime_ts_def c s_def A_def B_def C_def D_def E_def F_def Let_def)
  have "m \<le> 12" using cc by simp
  then have "days_in_month y m \<le> 31" by (intro days_in_month_le) simp
  then have dm: "d \<le> 31" using cc by simp
  have h: "s div 3600 < 24" "s mod 3600 div 60 < 60" "s mod 60 < 60" using s(1) by simp_all
  have len: "length A = 4" "length B = 2" "length C = 2" "length D = 2" "length E = 2" "length F = 2"
    unfolding A_def B_def C_def D_def E_def F_def using yb cc dm h
    by (auto intro!: pad_length)
  have dig: "\<forall>x \<in> set (A @ B @ C @ D @ E @ F). re_digit x"
    using pad_digits unfolding A_def B_def C_def D_def E_def F_def by auto
  have shape: "ts_shape (strftime_ts t)" unfolding str by (rule ts_shape_fields [OF len dig])
  have fields: "take 4 (strftime_ts t) = A" "take 2 (drop 5 (strftime_ts t)) = B"
    "take 2 (drop 8 (strftime_ts t)) = C" "take 2 (drop 11 (strftime_ts t)) = D"
    "take 2 (drop 14 (strftime_ts t)) = E" "take 2 (drop 17 (strftime_ts t)) = F"
    unfolding str using len by simp_all
  have vals: "int (digits_value A) = y" "digits_value B = m" "digits_value C = d"
    "digits_value D = s div 3600" "digits_value E = s mod 3600 div 60" "digits_value F = s mod 60"
    using yb by (simp_all add: A_def B_def C_def D_def E_def F_def pad_value)
  have "epoch_seconds y m d (s div 3600) (s mod 3600 div 60) (s mod 60) = t"
  proof -
    have "epoch_seconds y m d (s div 3600) (s mod 3600 div 60) (s mod 60) = (t div 86400) * 86400 + int s"
      using cc seconds_split [of s] by (simp add: epoch_seconds_def algebra_simps)
    then show ?thesis using s(2) by simp
  qed
  then show ?thesis
    using shape fields vals cc h assms by (simp add: parse_timestamp_def Let_def)
qed

lemma year_walk_numeral [pipeline_simps]:
  "year_walk (numeral k) y r =
     (if r < year_len y then (y, r) else year_walk (pred_numeral k) (y + 1) (r - year_len y))"
  by (simp only: numeral_eq_Suc year_walk.simps(2))

declare year_len_def [pipeline_simps] year_start_def [pipeline_simps] civil_from_days_def [pipeline_simps]
  pad_def [pipeline_simps] strftime_ts_def [pipeline_simps]

end
