(* ===== verification/Counter.thy ===== *)
theory Counter
  imports Prelude
begin

text \<open>
  \<open>collections.Counter(iterable)\<close> (\<open>web_app.py\<close> line 28) and
  \<open>Series.value_counts().to_dict()\<close> (line 44) as an association list in dict order:
  counting an element bumps its entry in place, and a new element is appended, so the
  keys come in the order of their first occurrence.
\<close>

fun counter_add :: "('k \<times> nat) list \<Rightarrow> 'k \<Rightarrow> ('k \<times> nat) list" where
  "counter_add [] k = [(k, 1)]"
| "counter_add ((k', c) # xs) k =
     (if k' = k then (k', Suc c) # xs else (k', c) # counter_add xs k)"

definition counter :: "'k list \<Rightarrow> ('k \<times> nat) list" where
  "counter ks = foldl counter_add [] ks"

lemma counter_snoc: "counter (ks @ [k]) = counter_add (counter ks) k"
  by (simp add: counter_def)

lemma counter_Nil [simp]: "counter [] = []"
  by (simp add: counter_def)

lemma counter_add_keys:
  "map fst (counter_add xs k) = (if k \<in> set (map fst xs) then map fst xs else map fst xs @ [k])"
  by (induction xs k rule: counter_add.induct) auto

lemma counter_add_lookup:
  "map_of (counter_add xs k) k' =
     (if k' = k then Some (case map_of xs k of None \<Rightarrow> 1 | Some c \<Rightarrow> Suc c) else map_of xs k')"
  by (induction xs k rule: counter_add.induct) auto

lemma counter_keys: "map fst (counter ks) = rev (remdups (rev ks))"
  by (induction ks rule: rev_induct) (simp_all add: counter_snoc counter_add_keys)

lemma counter_distinct: "distinct (map fst (counter ks))"
  by (simp add: counter_keys)

lemma counter_lookup:
  "map_of (counter ks) k = (if k \<in> set ks then Some (count_list ks k) else None)"
  by (induction ks rule: rev_induct) (auto simp: counter_snoc counter_add_lookup)

lemma counter_entry:
  "(k, c) \<in> set (counter ks) \<Longrightarrow> c = count_list ks k \<and> 0 < c"
proof -
  assume kc: "(k, c) \<in> set (counter ks)"
  then have "map_of (counter ks) k = Some c"
    by (rule map_of_is_SomeI [OF counter_distinct])
  then have "k \<in> set ks" and "c = count_list ks k"
    by (auto simp: counter_lookup split: if_splits)
  then show ?thesis by (metis count_list_0_iff gr0I)
qed

lemma counter_add_sum: "sum_list (map snd (counter_add xs k)) = Suc (sum_list (map snd xs))"
  by (induction xs k rule: counter_add.induct) auto

lemma counter_sum: "sum_list (map snd (counter ks)) = length ks"
  by (induction ks rule: rev_induct) (simp_all add: counter_snoc counter_add_sum)


declare counter_def [pipeline_simps]

end
