(* ===== verification/SpikeDetector.thy ===== *)
theory SpikeDetector
  imports TimeFormat Counter
begin

text \<open>
  The rule-based detector of \<open>get_basic_analysis\<close> (\<open>web_app.py\<close> lines 27-41):
  the timestamps of the ERROR rows are floored to 30-second buckets, counted with a
  \<open>Counter\<close>, and every bucket whose count exceeds the threshold 3 becomes an anomaly
  \<open>{time, count, message}\<close>, in the Counter's iteration order, its time printed with
  \<open>strftime('%Y-%m-%d %H:%M:%S')\<close>.
\<close>

record spike =
  spike_time :: string
  spike_count :: nat
  spike_message :: string

definition error_times :: "log_record list \<Rightarrow> timestamp list" where
  "error_times df = map timestamp (filter (\<lambda>r. level r = ''ERROR'') df)"

definition error_counts :: "log_record list \<Rightarrow> error + (timestamp \<times> nat) list" where
  "error_counts df = bind_r (map_r dt_floor_30s (error_times df)) (\<lambda>buckets. Inr (counter buckets))"

definition spike_threshold :: nat where
  "spike_threshold = 3"

fun detect_spikes :: "nat \<Rightarrow> (timestamp \<times> nat) list \<Rightarrow> spike list" where
  "detect_spikes threshold [] = []"
| "detect_spikes threshold ((time, cnt) # cs) =
     (if threshold < cnt
      then \<lparr>spike_time = strftime_ts time, spike_count = cnt,
            spike_message = py_str_nat cnt @ '' ERROR logs in 30 seconds''\<rparr>
           # detect_spikes threshold cs
      else detect_spikes threshold cs)"

subsection \<open>The detection loop\<close>

lemma detect_spikes_times:
  "map spike_time (detect_spikes th cs) = map (strftime_ts \<circ> fst) (filter (\<lambda>(t, c). th < c) cs)"
  by (induction th cs rule: detect_spikes.induct) auto

lemma detect_spikes_mem:
  "sp \<in> set (detect_spikes th cs) \<longleftrightarrow>
   (\<exists>(t, c) \<in> set cs. th < c \<and> spike_time sp = strftime_ts t \<and> spike_count sp = c
      \<and> spike_message sp = py_str_nat c @ '' ERROR logs in 30 seconds'')"
  by (induction th cs rule: detect_spikes.induct) auto

lemma detect_spikes_counter_mem:
  "sp \<in> set (detect_spikes th (counter ks)) \<Longrightarrow>
   \<exists>b. spike_time sp = strftime_ts b \<and> th < spike_count sp \<and> spike_count sp = count_list ks b"
  by (auto simp: detect_spikes_mem dest: counter_entry)

lemma sorted_distinct_rev_remdups_rev:
  "sorted xs \<Longrightarrow> sorted (rev (remdups (rev xs)))"
proof (induction xs rule: rev_induct)
  case Nil
  then show ?case by simp
next
  case (snoc x xs)
  then have "sorted xs" and "\<forall>y \<in> set xs. y \<le> x" by (auto simp: sorted_append)
  then show ?case using snoc.IH by (auto simp: sorted_append)
qed

subsection \<open>Buckets\<close>

lemma count_list_map:
  "count_list (map f xs) b = length (filter (\<lambda>x. f x = b) xs)"
  by (induction xs) auto

lemma floor_bucket_iff:
  fixes t b :: int
  assumes "30 dvd b"
  shows "t - t mod 30 = b \<longleftrightarrow> b \<le> t \<and> t < b + 30"
proof -
  obtain k where b: "b = 30 * k" using assms by blast
  have "t - t mod 30 = 30 * (t div 30)" by (simp add: minus_mod_eq_mult_div)
  then show ?thesis using b by auto
qed

lemma map_r_floor:
  "map_r dt_floor_30s ts =
     (if \<forall>t \<in> set ts. - 9223372020 \<le> t then Inr (map (\<lambda>t. t - t mod 30) ts)
      else Inl (RoundOverflow (hd (filter (\<lambda>t. t < - 9223372020) ts))))"
  by (induction ts) (auto simp: dt_floor_30s_eq not_le)

lemma error_counts_Inr:
  "error_counts df = Inr cs \<Longrightarrow>
   cs = counter (map (\<lambda>t. t - t mod 30) (error_times df))"
  by (auto simp: error_counts_def map_r_floor split: if_splits)

lemma bucket_count:
  assumes "30 dvd b"
  shows "count_list (map (\<lambda>t. t - t mod 30) (error_times df)) b =
         length (filter (\<lambda>r. level r = ''ERROR'' \<and> b \<le> timestamp r \<and> timestamp r < b + 30) df)"
proof -
  have "count_list (map (\<lambda>t. t - t mod 30) (error_times df)) b =
        length (filter (\<lambda>t. t - t mod 30 = b) (error_times df))"
    by (rule count_list_map)
  also have "\<dots> = length (filter (\<lambda>t. b \<le> t \<and> t < b + 30) (error_times df))"
    using floor_bucket_iff [OF assms] by simp
  also have "\<dots> = length (filter (\<lambda>r. level r = ''ERROR'' \<and> b \<le> timestamp r \<and> timestamp r < b + 30) df)"
    by (simp add: error_times_def filter_map filter_filter comp_def conj_commute)
  finally show ?thesis .
qed

lemma floor_key_dvd:
  "b \<in> set (map (\<lambda>t :: int. t - t mod 30) ts) \<Longrightarrow> 30 dvd b"
  by (auto simp: minus_mod_eq_mult_div)

lemma sorted_map_floor:
  "sorted ts \<Longrightarrow> sorted (map (\<lambda>t :: int. t - t mod 30) ts)"
proof (induction ts)
  case Nil
  then show ?case by simp
next
  case (Cons t ts)
  have "\<forall>u \<in> set ts. t - t mod 30 \<le> u - u mod 30"
  proof
    fix u assume "u \<in> set ts"
    then have "t div 30 \<le> u div 30" using Cons.prems by (simp add: zdiv_mono1)
    then show "t - t mod 30 \<le> u - u mod 30" by (simp add: minus_mod_eq_mult_div)
  qed
  then show ?case using Cons by simp
qed

subsection \<open>Correctness of the detector\<close>

text \<open>
  C1: every reported spike is a 30-second window aligned to the epoch, holds more
  than \<open>spike_threshold\<close> ERROR records, and its count is exactly the number of ERROR
  records of the window.
\<close>

theorem spike_window_sound:
  assumes "error_counts df = Inr cs" and "sp \<in> set (detect_spikes spike_threshold cs)"
  shows "\<exists>b. spike_time sp = strftime_ts b \<and> 30 dvd b \<and> spike_threshold < spike_count sp \<and>
         spike_count sp = length (filter (\<lambda>r. level r = ''ERROR'' \<and>
            b \<le> timestamp r \<and> timestamp r < b + 30) df)"
proof -
  let ?ks = "map (\<lambda>t. t - t mod 30) (error_times df)"
  have cs: "cs = counter ?ks" using assms(1) by (rule error_counts_Inr)
  obtain b where b: "spike_time sp = strftime_ts b" and th: "spike_threshold < spike_count sp"
    and cnt: "spike_count sp = count_list ?ks b"
    using detect_spikes_counter_mem assms(2) cs by blast
  then have "b \<in> set ?ks" by (metis count_list_0_iff not_less0)
  then have dvd: "30 dvd b" by (rule floor_key_dvd)
  show ?thesis using b th cnt bucket_count [OF dvd] dvd by auto
qed

text \<open>
  C2: every epoch-aligned 30-second window with more than \<open>spike_threshold\<close> ERROR
  records is reported, with its count.
\<close>

theorem spike_window_complete:
  assumes "error_counts df = Inr cs" and "30 dvd b"
    and "spike_threshold < length (filter (\<lambda>r. level r = ''ERROR'' \<and> b \<le> timestamp r \<and> timestamp r < b + 30) df)"
  shows "\<exists>sp \<in> set (detect_spikes spike_threshold cs). spike_time sp = strftime_ts b \<and>
           spike_count sp = length (filter (\<lambda>r. level r = ''ERROR'' \<and> b \<le> timestamp r \<and> timestamp r < b + 30) df)"
proof -
  let ?ks = "map (\<lambda>t. t - t mod 30) (error_times df)"
  let ?n = "length (filter (\<lambda>r. level r = ''ERROR'' \<and> b \<le> timestamp r \<and> timestamp r < b + 30) df)"
  have cs: "cs = counter ?ks" using assms(1) by (rule error_counts_Inr)
  have n: "count_list ?ks b = ?n" using bucket_count [OF assms(2)] .
  then have "b \<in> set ?ks" using assms(3) by (metis count_list_0_iff not_less0)
  then have "map_of cs b = Some ?n" using cs n by (simp add: counter_lookup)
  then have mem: "(b, ?n) \<in> set cs" by (rule map_of_SomeD)
  let ?sp = "\<lparr>spike_time = strftime_ts b, spike_count = ?n,
              spike_message = py_str_nat ?n @ '' ERROR logs in 30 seconds''\<rparr>"
  have "?sp \<in> set (detect_spikes spike_threshold cs)"
    unfolding detect_spikes_mem using mem assms(3) by fastforce
  then show ?thesis by force
qed

text \<open>
  C8: when the log is in chronological order, the reported times are those of distinct
  windows, in ascending order of their start.
\<close>

theorem spikes_ascending:
  assumes "error_counts df = Inr cs" and "sorted (map timestamp df)"
  shows "\<exists>bs. map spike_time (detect_spikes th cs) = map strftime_ts bs \<and> sorted bs \<and> distinct bs"
proof -
  let ?ks = "map (\<lambda>t. t - t mod 30) (error_times df)"
  have cs: "cs = counter ?ks" using assms(1) by (rule error_counts_Inr)
  have "sorted (error_times df)"
    using assms(2) by (simp add: error_times_def sorted_filter)
  then have "sorted ?ks" by (rule sorted_map_floor)
  then have keys: "sorted (map fst cs)" "distinct (map fst cs)"
    using cs counter_keys counter_distinct sorted_distinct_rev_remdups_rev by metis+
  have "sorted (map fst (filter (\<lambda>(t, c). th < c) cs))"
    using keys(1) by (simp add: sorted_filter)
  moreover have "distinct (map fst (filter (\<lambda>(t, c). th < c) cs))"
    using keys(2) by (simp add: distinct_map_filter)
  ultimately show ?thesis by (metis detect_spikes_times list.map_comp)
qed

lemma map_fst_filter_snd:
  "\<forall>(k, c) \<in> set xs. c = f k \<Longrightarrow>
   map fst (filter (\<lambda>(t, c). P c) xs) = filter (\<lambda>k. P (f k)) (map fst xs)"
  by (induction xs) auto

lemma filter_keys_counter:
  "map fst (filter (\<lambda>(t, c). P c) (counter ks)) = filter (\<lambda>k. P (count_list ks k)) (map fst (counter ks))"
  by (rule map_fst_filter_snd) (auto dest: counter_entry)

text \<open>
  C9: in general the spikes come in the order in which their windows first occur among
  the ERROR records, not in the order of time: the reported times are the printed
  starts of the distinct windows of the ERROR records, in first-occurrence order, that
  hold more than the threshold.
\<close>

theorem spikes_first_occurrence:
  assumes "error_counts df = Inr cs"
  shows "map spike_time (detect_spikes th cs) =
         map strftime_ts (filter (\<lambda>b. th < length (filter (\<lambda>r. level r = ''ERROR'' \<and>
                                        b \<le> timestamp r \<and> timestamp r < b + 30) df))
                            (rev (remdups (rev (map (\<lambda>t. t - t mod 30) (error_times df))))))"
proof -
  let ?ks = "map (\<lambda>t. t - t mod 30) (error_times df)"
  have cs: "cs = counter ?ks" using assms by (rule error_counts_Inr)
  have "map spike_time (detect_spikes th cs) =
        map strftime_ts (map fst (filter (\<lambda>(t, c). th < c) (counter ?ks)))"
    by (simp only: detect_spikes_times cs map_map)
  also have "\<dots> = map strftime_ts (filter (\<lambda>b. th < count_list ?ks b) (rev (remdups (rev ?ks))))"
    by (simp only: filter_keys_counter counter_keys)
  also have "filter (\<lambda>b. th < count_list ?ks b) (rev (remdups (rev ?ks))) =
             filter (\<lambda>b. th < length (filter (\<lambda>r. level r = ''ERROR'' \<and>
                b \<le> timestamp r \<and> timestamp r < b + 30) df)) (rev (remdups (rev ?ks)))"
  proof (rule filter_cong [OF refl])
    fix b assume "b \<in> set (rev (remdups (rev ?ks)))"
    then have "30 dvd b" by (intro floor_key_dvd) simp
    then show "(th < count_list ?ks b) = (th < length (filter (\<lambda>r. level r = ''ERROR'' \<and>
                b \<le> timestamp r \<and> timestamp r < b + 30) df))"
      by (simp only: bucket_count)
  qed
  finally show ?thesis .
qed

text \<open>
  C10: the window count raises (pandas' overflow check in \<open>dt.floor\<close>) exactly when an
  ERROR record lies before -9223372020 s, i.e. in 1677-09-21 00:12:43.145 .. 00:12:59,
  the first window after \<open>Timestamp.min\<close>, whose start is not representable.
\<close>

theorem error_counts_overflow:
  "(\<exists>e. error_counts df = Inl e) \<longleftrightarrow>
   (\<exists>r \<in> set df. level r = ''ERROR'' \<and> timestamp r < - 9223372020)"
  by (auto simp: error_counts_def map_r_floor error_times_def not_le)


declare error_times_def [pipeline_simps] error_counts_def [pipeline_simps]
  spike_threshold_def [pipeline_simps]

end
