(* ===== verification/Features.thy ===== *)
theory Features
  imports Timestamps
begin

text \<open>
  Feature derivation of the statistical path (\<open>web_anomaly_display.py\<close> lines 28-30,
  \<open>web_app.py\<close> lines 74-78): \<open>level_score\<close> maps the level through a dict with
  \<open>Series.map\<close>, which yields NaN (here \<open>None\<close>) for a level outside the dict, and
  \<open>message_length\<close> is \<open>len\<close> of the message as the parser left it.
\<close>

record featured_record = log_record +
  level_score :: "int option"
  message_length :: nat

definition level_mapping :: "string \<rightharpoonup> int" where
  "level_mapping = [''INFO'' \<mapsto> 1, ''WARNING'' \<mapsto> 2, ''ERROR'' \<mapsto> 3, ''CRITICAL'' \<mapsto> 4]"

definition add_features :: "log_record \<Rightarrow> featured_record" where
  "add_features r =
     \<lparr>timestamp = timestamp r, level = level r, message = message r,
      level_score = level_mapping (level r), message_length = length (message r)\<rparr>"

lemma level_mapping_range:
  "level_mapping l = Some k \<Longrightarrow> 1 \<le> k \<and> k \<le> 4"
  by (auto simp: level_mapping_def split: if_splits)

lemma level_mapping_None:
  "level_mapping l = None \<longleftrightarrow> l \<notin> {''INFO'', ''WARNING'', ''ERROR'', ''CRITICAL''}"
  by (auto simp: level_mapping_def)

lemma to_datetime_fields:
  assumes "to_datetime es = Inr rows"
  shows "map (\<lambda>r. (level r, message r)) rows = map (\<lambda>e. (raw_level e, raw_message e)) es"
proof -
  have "list_all2 (\<lambda>e r. bind_r (parse_timestamp (raw_timestamp e))
          (\<lambda>t. Inr \<lparr>timestamp = t, level = raw_level e, message = raw_message e\<rparr>) = Inr r) es rows"
    using assms by (simp add: to_datetime_def map_r_Inr_iff)
  then show ?thesis
    by (induction rule: list_all2_induct) (auto simp: bind_r_Inr_iff)
qed

lemma parse_split_mem:
  "e \<in> set (parse_split ls) \<Longrightarrow> \<exists>l \<in> set ls. parse_split_line l = Some e"
  by (induction ls) (auto split: option.splits)

lemma to_datetime_length:
  "to_datetime es = Inr rows \<Longrightarrow> length rows = length es"
  by (simp add: to_datetime_def map_r_length)


text \<open>
  C15: the level score of a featured record is one of 1..4 exactly when its level is
  one of the four known names; any other level gives NaN (\<open>None\<close>), not an error.
\<close>

theorem add_features_level_score:
  "(level_score (add_features r) = None \<longleftrightarrow> level r \<notin> {''INFO'', ''WARNING'', ''ERROR'', ''CRITICAL''}) \<and>
   (\<forall>k. level_score (add_features r) = Some k \<longrightarrow> 1 \<le> k \<and> k \<le> 4)"
  by (simp add: add_features_def level_mapping_None level_mapping_range)

declare level_mapping_def [pipeline_simps] add_features_def [pipeline_simps]

end
