(* ===== verification/OutlierDetector.thy ===== *)
theory OutlierDetector
  imports Features
begin

text \<open>
  The statistical detector (\<open>web_anomaly_display.py\<close> lines 33-35, \<open>web_app.py\<close>
  lines 81-82): \<open>IsolationForest(contamination=0.1, random_state=42).fit_predict(X)\<close>
  on the feature matrix \<open>X = df[["level_score", "message_length"]]\<close>.
  \<^item> \<open>check_array\<close> rejects a matrix with NaN (an unknown level) or with no rows;
  \<^item> the fitted forest is a \<open>scorer\<close>: a function from the training matrix to the
    per-row \<open>score_samples\<close>. The forest itself (random trees under seed 42) is left
    abstract; every lemma holds for every scorer, which is the spec's "replaceable
    capability" \<open>fit(features) \<rightarrow> verdicts\<close>, and determinism is that the scorer is
    a function of the data;
  \<^item> \<open>fit\<close> sets \<open>offset_ = np.percentile(scores, 100 * contamination)\<close> (linear
    interpolation between order statistics) and \<open>predict\<close> answers -1 for the rows with
    \<open>score - offset_ < 0\<close>, 1 otherwise.
  Scores are reals: the float rounding of numpy is not modelled.
\<close>

type_synonym feature = "int \<times> nat"
type_synonym scorer = "feature list \<Rightarrow> feature \<Rightarrow> real"

definition contamination :: real where
  "contamination = 0.1"

text \<open>\<open>np.percentile(a, q)\<close>, method \<open>linear\<close>, for a non-empty \<open>a\<close> and \<open>0 \<le> q \<le> 100\<close>.\<close>

definition percentile :: "real list \<Rightarrow> real \<Rightarrow> real" where
  "percentile xs q =
     (let ys = sort xs; n = length ys; idx = q / 100 * real (n - 1);
          lo = nat \<lfloor>idx\<rfloor>; hi = min (lo + 1) (n - 1); g = idx - of_int \<lfloor>idx\<rfloor>
      in ys ! lo + g * (ys ! hi - ys ! lo))"

definition feature_row :: "featured_record \<Rightarrow> error + feature" where
  "feature_row r = (case level_score r of None \<Rightarrow> Inl NaNInput | Some s \<Rightarrow> Inr (s, message_length r))"

definition check_array :: "featured_record list \<Rightarrow> error + feature list" where
  "check_array df = bind_r (map_r feature_row df) (\<lambda>X. if X = [] then Inl EmptyInput else Inr X)"

definition fit_predict :: "scorer \<Rightarrow> featured_record list \<Rightarrow> error + int list" where
  "fit_predict forest df =
     bind_r (check_array df) (\<lambda>X.
       let score = forest X; offset = percentile (map score X) (100 * contamination)
       in Inr (map (\<lambda>x. if score x - offset < 0 then -1 else 1) X))"

subsection \<open>The percentile threshold\<close>

lemma length_filter_less_mono:
  fixes a b :: "'a::linorder"
  shows "a \<le> b \<Longrightarrow> length (filter (\<lambda>v. v < a) xs) \<le> length (filter (\<lambda>v. v < b) xs)"
  by (induction xs) auto

text \<open>The index arithmetic of the linear method: \<open>idx\<close> lies in \<open>[0, n - 1]\<close>.\<close>

lemma percentile_index:
  assumes "0 \<le> q" "q \<le> 100" "0 < n"
  defines "idx \<equiv> q / 100 * real (n - 1)"
  shows "0 \<le> idx" "idx \<le> real (n - 1)" "nat \<lfloor>idx\<rfloor> \<le> n - 1"
    "0 \<le> idx - of_int \<lfloor>idx\<rfloor>" "idx - of_int \<lfloor>idx\<rfloor> < 1"
    "idx - of_int \<lfloor>idx\<rfloor> = 0 \<Longrightarrow> nat \<lceil>idx\<rceil> = nat \<lfloor>idx\<rfloor>"
    "0 < idx - of_int \<lfloor>idx\<rfloor> \<Longrightarrow> nat \<lceil>idx\<rceil> = nat \<lfloor>idx\<rfloor> + 1 \<and> nat \<lfloor>idx\<rfloor> + 1 \<le> n - 1"
proof -
  have fl: "of_int \<lfloor>idx\<rfloor> \<le> idx" "idx < of_int \<lfloor>idx\<rfloor> + 1"
    using floor_correct [of idx] by simp_all
  show i0: "0 \<le> idx" using assms(1) by (simp add: idx_def)
  have "q * real (n - 1) \<le> 100 * real (n - 1)"
    using assms(2) by (intro mult_right_mono) auto
  then show i1: "idx \<le> real (n - 1)" by (simp add: idx_def)
  have "\<lfloor>idx\<rfloor> \<le> \<lfloor>real (n - 1)\<rfloor>" using i1 by (rule floor_mono)
  then show "nat \<lfloor>idx\<rfloor> \<le> n - 1" by simp
  show "0 \<le> idx - of_int \<lfloor>idx\<rfloor>" "idx - of_int \<lfloor>idx\<rfloor> < 1" using fl by linarith+
  show "nat \<lceil>idx\<rceil> = nat \<lfloor>idx\<rfloor>" if "idx - of_int \<lfloor>idx\<rfloor> = 0"
  proof -
    have "idx = of_int \<lfloor>idx\<rfloor>" using that by simp
    then have "\<lceil>idx\<rceil> = \<lfloor>idx\<rfloor>" by (metis ceiling_of_int)
    then show ?thesis by simp
  qed
  show "nat \<lceil>idx\<rceil> = nat \<lfloor>idx\<rfloor> + 1 \<and> nat \<lfloor>idx\<rfloor> + 1 \<le> n - 1"
    if g: "0 < idx - of_int \<lfloor>idx\<rfloor>"
  proof -
    have ne: "idx \<noteq> of_int \<lfloor>idx\<rfloor>" using g by simp
    then have c: "\<lceil>idx\<rceil> = \<lfloor>idx\<rfloor> + 1" by (simp add: ceiling_altdef)
    have "of_int \<lfloor>idx\<rfloor> < real (n - 1)" using g i1 by simp
    then have "\<lfloor>idx\<rfloor> < int (n - 1)" by linarith
    moreover have z: "0 \<le> \<lfloor>idx\<rfloor>" using i0 by simp
    ultimately have lt: "nat \<lfloor>idx\<rfloor> < n - 1" by (simp add: nat_less_iff)
    have "nat \<lceil>idx\<rceil> = nat \<lfloor>idx\<rfloor> + 1" using c z by (simp add: nat_add_distrib)
    then show ?thesis using lt by simp
  qed
qed

text \<open>At most \<open>\<lceil>q/100 \<cdot> (n - 1)\<rceil>\<close> values lie strictly below the \<open>q\<close>-th percentile.\<close>

lemma percentile_below_count:
  assumes "xs \<noteq> []" "0 \<le> q" "q \<le> 100"
  shows "length (filter (\<lambda>v. v < percentile xs q) xs) \<le> nat \<lceil>q / 100 * real (length xs - 1)\<rceil>"
proof -
  define ys where "ys = sort xs"
  define n where "n = length ys"
  define idx where "idx = q / 100 * real (n - 1)"
  define lo where "lo = nat \<lfloor>idx\<rfloor>"
  define g where "g = idx - of_int \<lfloor>idx\<rfloor>"
  have n: "n = length xs" "0 < n" using assms(1) by (auto simp: n_def ys_def)
  have srt: "sorted ys" by (simp add: ys_def)
  note ix = percentile_index [OF assms(2,3) n(2), folded idx_def, folded lo_def g_def]
  have p: "percentile xs q = ys ! lo + g * (ys ! min (lo + 1) (n - 1) - ys ! lo)"
    by (simp add: percentile_def Let_def ys_def n_def idx_def lo_def g_def)
  have cnt: "length (filter (\<lambda>v. v < percentile xs q) xs) = length (filter (\<lambda>v. v < percentile xs q) ys)"
    by (simp add: ys_def length_filter_sort)
  have lo_n: "lo < n" using ix(3) n(2) by linarith
  show ?thesis
  proof (cases "g = 0")
    case True
    then have "percentile xs q = ys ! lo" using p by simp
    then have "length (filter (\<lambda>v. v < percentile xs q) ys) \<le> lo"
      using sorted_filter_less_nth [OF srt, of lo] lo_n by (simp add: n_def)
    then show ?thesis using cnt ix(6) True n(1) by (simp add: idx_def)
  next
    case False
    then have g: "0 < g" using ix(4) by simp
    have hi: "nat \<lceil>idx\<rceil> = lo + 1" "lo + 1 \<le> n - 1" using ix(7) g by auto
    then have hi_n: "lo + 1 < n" using n(2) by linarith
    have ab: "ys ! lo \<le> ys ! (lo + 1)" using srt hi_n by (simp add: sorted_iff_nth_mono n_def)
    have "g * (ys ! (lo + 1) - ys ! lo) \<le> ys ! (lo + 1) - ys ! lo"
      using ab g ix(5) by (intro mult_left_le_one_le) auto
    then have "percentile xs q \<le> ys ! (lo + 1)" using p hi(2) by simp
    then have "length (filter (\<lambda>v. v < percentile xs q) ys) \<le> length (filter (\<lambda>v. v < ys ! (lo + 1)) ys)"
      by (rule length_filter_less_mono)
    also have "\<dots> \<le> lo + 1"
      using sorted_filter_less_nth [OF srt, of "lo + 1"] hi_n by (simp add: n_def)
    finally show ?thesis using cnt hi(1) n(1) by (simp add: idx_def)
  qed
qed

text \<open>With pairwise distinct values the bound is reached exactly.\<close>

lemma percentile_below_count_distinct:
  assumes "xs \<noteq> []" "0 \<le> q" "q \<le> 100" "distinct xs"
  shows "length (filter (\<lambda>v. v < percentile xs q) xs) = nat \<lceil>q / 100 * real (length xs - 1)\<rceil>"
proof -
  define ys where "ys = sort xs"
  define n where "n = length ys"
  define idx where "idx = q / 100 * real (n - 1)"
  define lo where "lo = nat \<lfloor>idx\<rfloor>"
  define g where "g = idx - of_int \<lfloor>idx\<rfloor>"
  have n: "n = length xs" "0 < n" using assms(1) by (auto simp: n_def ys_def)
  have srt: "sorted ys" and dst: "distinct ys" using assms(4) by (simp_all add: ys_def)
  note ix = percentile_index [OF assms(2,3) n(2), folded idx_def, folded lo_def g_def]
  have p: "percentile xs q = ys ! lo + g * (ys ! min (lo + 1) (n - 1) - ys ! lo)"
    by (simp add: percentile_def Let_def ys_def n_def idx_def lo_def g_def)
  have cnt: "length (filter (\<lambda>v. v < percentile xs q) xs) = length (filter (\<lambda>v. v < percentile xs q) ys)"
    by (simp add: ys_def length_filter_sort)
  have lo_n: "lo < n" using ix(3) n(2) by linarith
  show ?thesis
  proof (cases "g = 0")
    case True
    then have "percentile xs q = ys ! lo" using p by simp
    then have "length (filter (\<lambda>v. v < percentile xs q) ys) = lo"
      using sorted_distinct_filter_less_nth [OF srt dst, of lo] lo_n by (simp add: n_def)
    then show ?thesis using cnt ix(6) True n(1) by (simp add: idx_def)
  next
    case False
    then have g: "0 < g" using ix(4) by simp
    have hi: "nat \<lceil>idx\<rceil> = lo + 1" "lo + 1 \<le> n - 1" using ix(7) g by auto
    then have hi_n: "lo + 1 < n" using n(2) by linarith
    have "ys ! lo \<le> ys ! (lo + 1)" using srt hi_n by (simp add: sorted_iff_nth_mono n_def)
    moreover have "ys ! lo \<noteq> ys ! (lo + 1)" using dst hi_n by (simp add: nth_eq_iff_index_eq n_def)
    ultimately have ab: "0 < ys ! (lo + 1) - ys ! lo" by simp
    have off: "percentile xs q = ys ! lo + g * (ys ! (lo + 1) - ys ! lo)" using p hi(2) by simp
    have "0 < g * (ys ! (lo + 1) - ys ! lo)" using g ab by (rule mult_pos_pos)
    then have lower: "ys ! lo < percentile xs q" using off by simp
    have "g * (ys ! (lo + 1) - ys ! lo) < 1 * (ys ! (lo + 1) - ys ! lo)"
      using ix(5) ab by (intro mult_strict_right_mono) auto
    then have upper: "percentile xs q < ys ! (lo + 1)" using off by simp
    have "\<forall>v \<in> set ys. v < percentile xs q \<longleftrightarrow> v < ys ! (lo + 1)"
    proof
      fix v assume "v \<in> set ys"
      then obtain i where i: "i < n" "v = ys ! i" by (auto simp: in_set_conv_nth n_def)
      show "v < percentile xs q \<longleftrightarrow> v < ys ! (lo + 1)"
      proof (cases "i \<le> lo")
        case True
        then have "v \<le> ys ! lo" using i srt lo_n by (simp add: sorted_iff_nth_mono n_def)
        then show ?thesis using lower upper by linarith
      next
        case False
        then have "ys ! (lo + 1) \<le> v" using i srt by (simp add: sorted_iff_nth_mono n_def)
        then show ?thesis using upper by linarith
      qed
    qed
    then have "filter (\<lambda>v. v < percentile xs q) ys = filter (\<lambda>v. v < ys ! (lo + 1)) ys"
      by (intro filter_cong) auto
    moreover have "length (filter (\<lambda>v. v < ys ! (lo + 1)) ys) = lo + 1"
      using sorted_distinct_filter_less_nth [OF srt dst, of "lo + 1"] hi_n by (simp add: n_def)
    ultimately show ?thesis using cnt hi(1) n(1) by (simp add: idx_def)
  qed
qed

subsection \<open>Verdicts\<close>

lemma check_array_Inr:
  assumes "check_array df = Inr X"
  shows "X \<noteq> []" "length X = length df"
    "\<forall>i < length df. \<exists>s. level_score (df ! i) = Some s \<and> X ! i = (s, message_length (df ! i))"
proof -
  have m: "map_r feature_row df = Inr X" and ne: "X \<noteq> []"
    using assms by (auto simp: check_array_def bind_r_Inr_iff split: if_splits)
  show "X \<noteq> []" by (rule ne)
  show "length X = length df" using m by (rule map_r_length)
  show "\<forall>i < length df. \<exists>s. level_score (df ! i) = Some s \<and> X ! i = (s, message_length (df ! i))"
  proof (intro allI impI)
    fix i assume "i < length df"
    then have "feature_row (df ! i) = Inr (X ! i)" using map_r_nth [OF m] by simp
    then show "\<exists>s. level_score (df ! i) = Some s \<and> X ! i = (s, message_length (df ! i))"
      by (cases "level_score (df ! i)") (auto simp: feature_row_def)
  qed
qed

lemma check_array_Nil:
  "check_array [] = Inl EmptyInput"
  by (simp add: check_array_def)

lemma map_r_feature_row_NaN:
  "\<exists>r \<in> set df. level_score r = None \<Longrightarrow> map_r feature_row df = Inl NaNInput"
  by (induction df) (fastforce simp: feature_row_def split: option.splits sum.splits)+

lemma check_array_NaN:
  "\<exists>r \<in> set df. level_score r = None \<Longrightarrow> check_array df = Inl NaNInput"
  by (simp add: check_array_def map_r_feature_row_NaN)

lemma fit_predict_error:
  "fit_predict forest df = Inl e \<longleftrightarrow>
   (if \<exists>r \<in> set df. level_score r = None then e = NaNInput else df = [] \<and> e = EmptyInput)"
proof (cases "\<exists>r \<in> set df. level_score r = None")
  case True
  then show ?thesis by (auto simp: fit_predict_def check_array_NaN)
next
  case False
  then have "map_r feature_row df = Inr (map (\<lambda>r. (the (level_score r), message_length r)) df)"
    by (intro map_r_Inr_map) (auto simp: feature_row_def)
  then show ?thesis using False by (auto simp: fit_predict_def check_array_def Let_def)
qed

lemma fit_predict_Inr:
  assumes "fit_predict forest df = Inr v"
  obtains X where "check_array df = Inr X"
    and "v = map (\<lambda>x. if forest X x < percentile (map (forest X) X) 10 then -1 else 1) X"
  using assms by (auto simp: fit_predict_def bind_r_Inr_iff contamination_def Let_def)

lemma anomaly_filter_count:
  "length (filter (\<lambda>y. y = (-1 :: int)) (map (\<lambda>x. if f x < off then -1 else 1) X)) =
   length (filter (\<lambda>v. v < off) (map f X))"
  by (induction X) auto

lemma verdict_count_bound:
  assumes "fit_predict forest df = Inr v"
  shows "length v = length df \<and> length (filter (\<lambda>y. y = -1) v) \<le> nat \<lceil>real (length df - 1) / 10\<rceil>"
proof -
  obtain X where X: "check_array df = Inr X"
    and v: "v = map (\<lambda>x. if forest X x < percentile (map (forest X) X) 10 then -1 else 1) X"
    using assms by (rule fit_predict_Inr)
  have ne: "map (forest X) X \<noteq> []" and len: "length X = length df"
    using check_array_Inr [OF X] by simp_all
  have "length (filter (\<lambda>y. y = -1) v) = length (filter (\<lambda>s. s < percentile (map (forest X) X) 10) (map (forest X) X))"
    unfolding v by (rule anomaly_filter_count)
  also have "\<dots> \<le> nat \<lceil>10 / 100 * real (length (map (forest X) X) - 1)\<rceil>"
    by (rule percentile_below_count [OF ne]) simp_all
  finally show ?thesis using v len by simp
qed

text \<open>
  C3: the forest labels one verdict per record, in order, and marks at most
  \<open>\<lceil>(n - 1) / 10\<rceil>\<close> of \<open>n\<close> records as anomalies, whatever the scores: the
  contamination 0.1 bounds the anomaly count from above.
\<close>

theorem anomaly_count_bound:
  assumes "fit_predict forest df = Inr v"
  shows "length v = length df \<and> length (filter (\<lambda>y. y = -1) v) \<le> nat \<lceil>real (length df - 1) / 10\<rceil>"
  using assms by (rule verdict_count_bound)

text \<open>
  C4: when the scores of the records are pairwise distinct, exactly
  \<open>\<lceil>(n - 1) / 10\<rceil>\<close> records are anomalies.
\<close>

theorem anomaly_count_exact:
  assumes "fit_predict forest df = Inr v" and "check_array df = Inr X"
    and "distinct (map (forest X) X)"
  shows "length (filter (\<lambda>y. y = -1) v) = nat \<lceil>real (length df - 1) / 10\<rceil>"
proof -
  obtain X' where X': "check_array df = Inr X'"
    and v: "v = map (\<lambda>x. if forest X' x < percentile (map (forest X') X') 10 then -1 else 1) X'"
    using assms(1) by (rule fit_predict_Inr)
  have XX: "X' = X" using X' assms(2) by simp
  have ne: "map (forest X) X \<noteq> []" and len: "length X = length df"
    using check_array_Inr [OF assms(2)] by simp_all
  have "length (filter (\<lambda>y. y = -1) v) = length (filter (\<lambda>s. s < percentile (map (forest X) X) 10) (map (forest X) X))"
    unfolding v XX by (rule anomaly_filter_count)
  also have "\<dots> = nat \<lceil>10 / 100 * real (length (map (forest X) X) - 1)\<rceil>"
    by (rule percentile_below_count_distinct [OF ne _ _ assms(3)]) simp_all
  finally show ?thesis using len by simp
qed

text \<open>
  C11: the verdict of a record depends only on its feature vector: records with the
  same level score and message length get the same verdict.
\<close>

theorem same_features_same_verdict:
  assumes "fit_predict forest df = Inr v" and "i < length df" and "j < length df"
    and "level_score (df ! i) = level_score (df ! j)"
    and "message_length (df ! i) = message_length (df ! j)"
  shows "v ! i = v ! j"
proof -
  obtain X where X: "check_array df = Inr X"
    and v: "v = map (\<lambda>x. if forest X x < percentile (map (forest X) X) 10 then -1 else 1) X"
    using assms(1) by (rule fit_predict_Inr)
  have len: "length X = length df" using check_array_Inr [OF X] by simp
  obtain si where si: "level_score (df ! i) = Some si" "X ! i = (si, message_length (df ! i))"
    using check_array_Inr(3) [OF X] assms(2) by blast
  obtain sj where sj: "level_score (df ! j) = Some sj" "X ! j = (sj, message_length (df ! j))"
    using check_array_Inr(3) [OF X] assms(3) by blast
  have "X ! i = X ! j" using si sj assms(4,5) by simp
  then show ?thesis using v len assms(2,3) by simp
qed

text \<open>
  C12: a log of a single record with a known level yields no anomaly: the offset is
  that record's own score.
\<close>

theorem single_record_normal:
  assumes "level_score r = Some s"
  shows "fit_predict forest [r] = Inr [1]"
proof -
  have "check_array [r] = Inr [(s, message_length r)]"
    using assms by (simp add: check_array_def feature_row_def)
  moreover have "percentile [x] q = x" for x q by (simp add: percentile_def)
  ultimately show ?thesis by (simp add: fit_predict_def)
qed


text \<open>
  C17: a record whose level is not one of the four known names makes the forest's
  fit raise (\<open>Input X contains NaN\<close>), whatever the other records are.
\<close>

theorem fit_predict_unknown_level:
  assumes "r \<in> set df" and "level r \<notin> {''INFO'', ''WARNING'', ''ERROR'', ''CRITICAL''}"
  shows "fit_predict forest (map add_features df) = Inl NaNInput"
proof -
  have "level_score (add_features r) = None" using assms(2) by (simp add: add_features_def level_mapping_None)
  then have "check_array (map add_features df) = Inl NaNInput" using assms(1) by (intro check_array_NaN) auto
  then show ?thesis by (simp add: fit_predict_def)
qed

declare contamination_def [pipeline_simps] percentile_def [pipeline_simps] feature_row_def [pipeline_simps]
  check_array_def [pipeline_simps] fit_predict_def [pipeline_simps]

end
