(* ===== verification/Analysis.thy ===== *)
theory Analysis
  imports SpikeDetector OutlierDetector
begin

text \<open>
  The three analysis entry points and the REST handlers, composed from the components:
  \<^item> \<open>get_basic_analysis\<close> (\<open>web_app.py\<close> lines 11-51): regex parser, \<open>to_datetime\<close>,
    the spike detector, the level distribution and the last ten rows;
  \<^item> \<open>get_ai_analysis\<close> (\<open>web_app.py\<close> lines 53-96) and \<open>generate_anomaly_webpage\<close>
    (\<open>web_anomaly_display.py\<close> lines 7-280): split parser, \<open>to_datetime\<close>, the features
    and the forest's verdicts, then the statistics and the anomaly rows;
  \<^item> \<open>api_basic_analysis\<close>, \<open>api_ai_analysis\<close> (\<open>web_app.py\<close> lines 103-119): an
    exception becomes an HTTP 500 answer carrying it, a result an HTTP 200 answer.
  The log file's text is the input (\<open>open("error_logs.txt")\<close>); the HTML markup and the
  JSON encoding are presentation and are not modelled.
\<close>

subsection \<open>Rule-based analysis\<close>

text \<open>
  \<open>Series.value_counts()\<close>: the counts of the distinct values, largest first; pandas
  sorts them with an unstable sort, of whose orders the stable \<open>sort_key\<close> is one.
\<close>

definition value_counts :: "'k list \<Rightarrow> ('k \<times> nat) list" where
  "value_counts ks = sort_key (\<lambda>kc. - int (snd kc)) (counter ks)"

record basic_result =
  basic_anomalies :: "spike list"
  total_logs :: nat
  level_distribution :: "(string \<times> nat) list"
  recent_logs :: "log_record list"

definition basic_analysis_of_rows :: "log_record list \<Rightarrow> error + basic_result" where
  "basic_analysis_of_rows df =
     bind_r (error_counts df) (\<lambda>counts.
       Inr \<lparr>basic_anomalies = detect_spikes spike_threshold counts,
            total_logs = length df,
            level_distribution = value_counts (map level df),
            recent_logs = drop (length df - 10) df\<rparr>)"

definition get_basic_analysis :: "string \<Rightarrow> error + basic_result" where
  "get_basic_analysis text = bind_r (to_datetime (parse_regex (readlines text))) basic_analysis_of_rows"

subsection \<open>Statistical analysis\<close>

record scored_record = featured_record +
  anomaly :: int

definition with_anomaly :: "featured_record \<Rightarrow> int \<Rightarrow> scored_record" where
  "with_anomaly r a =
     \<lparr>timestamp = timestamp r, level = level r, message = message r,
      level_score = level_score r, message_length = message_length r, anomaly = a\<rparr>"

text \<open>Lines 14-34 of \<open>web_anomaly_display.py\<close>, repeated as lines 55-82 of \<open>web_app.py\<close>.\<close>

definition ai_frame :: "scorer \<Rightarrow> string \<Rightarrow> error + scored_record list" where
  "ai_frame forest text =
     bind_r (to_datetime (parse_split (readlines text))) (\<lambda>rows.
       let df = map add_features rows
       in bind_r (fit_predict forest df) (\<lambda>v. Inr (map2 with_anomaly df v)))"

record ai_result =
  total_anomalies :: nat
  anomaly_percentage :: real
  ai_anomalies :: "scored_record list"

definition get_ai_analysis :: "scorer \<Rightarrow> string \<Rightarrow> error + ai_result" where
  "get_ai_analysis forest text =
     bind_r (ai_frame forest text) (\<lambda>df.
       let anomalies = filter (\<lambda>r. anomaly r = -1) df
       in if length df = 0 then Inl ZeroDivision
          else Inr \<lparr>total_anomalies = length anomalies,
                    anomaly_percentage = py_round 2 (real (length anomalies) / real (length df) * 100),
                    ai_anomalies = take 20 anomalies\<rparr>)"

subsection \<open>The report page\<close>

datatype anomaly_label = Anomaly | Normal

record labelled_record = scored_record +
  is_anomaly :: anomaly_label

definition label_anomaly :: "scored_record \<Rightarrow> labelled_record" where
  "label_anomaly r =
     \<lparr>timestamp = timestamp r, level = level r, message = message r,
      level_score = level_score r, message_length = message_length r, anomaly = anomaly r,
      is_anomaly = (if anomaly r = -1 then Anomaly else Normal)\<rparr>"

record table_row =
  row_timestamp :: string
  row_level :: string
  row_level_class :: string
  row_message :: string

datatype report_content = AnomalyTable "table_row list" | NoAnomalies

definition anomaly_row :: "labelled_record \<Rightarrow> table_row" where
  "anomaly_row r =
     \<lparr>row_timestamp = strftime_ts (timestamp r), row_level = level r,
      row_level_class = ''level-'' @ py_lower (level r), row_message = message r\<rparr>"

definition report_content_of :: "labelled_record list \<Rightarrow> report_content" where
  "report_content_of anomalies =
     (if 0 < length anomalies then AnomalyTable (map anomaly_row anomalies) else NoAnomalies)"

record report =
  report_total :: nat
  report_found :: nat
  report_rate :: real
  report_anomalies :: "labelled_record list"
  report_body :: report_content

text \<open>
  \<open>anomalies.sort_values("timestamp")\<close> sorts with numpy's unstable quicksort; the model
  uses the stable \<open>sort_key\<close>, one of the orders it may produce: records with equal
  timestamps may come in another order in the real page.
\<close>

definition generate_anomaly_webpage :: "scorer \<Rightarrow> string \<Rightarrow> error + report" where
  "generate_anomaly_webpage forest text =
     bind_r (ai_frame forest text) (\<lambda>scored.
       let df = map label_anomaly scored;
           anomalies = sort_key timestamp (filter (\<lambda>r. is_anomaly r = Anomaly) df)
       in if length df = 0 then Inl ZeroDivision
          else Inr \<lparr>report_total = length df, report_found = length anomalies,
                    report_rate = py_round 1 (real (length anomalies) / real (length df) * 100),
                    report_anomalies = anomalies, report_body = report_content_of anomalies\<rparr>)"

subsection \<open>REST handlers\<close>

datatype 'a api_response = Json200 'a | Json500 error

definition api_response :: "error + 'a \<Rightarrow> 'a api_response" where
  "api_response r = (case r of Inl e \<Rightarrow> Json500 e | Inr a \<Rightarrow> Json200 a)"

definition api_basic_analysis :: "string \<Rightarrow> basic_result api_response" where
  "api_basic_analysis text = api_response (get_basic_analysis text)"

definition api_ai_analysis :: "scorer \<Rightarrow> string \<Rightarrow> ai_result api_response" where
  "api_ai_analysis forest text = api_response (get_ai_analysis forest text)"


subsection \<open>Composition lemmas\<close>

lemma anomaly_with_anomaly [simp]: "anomaly (with_anomaly r a) = a"
  by (simp add: with_anomaly_def)

lemma length_filter_map2_with_anomaly:
  "length df = length v \<Longrightarrow>
   length (filter (\<lambda>r. anomaly r = a) (map2 with_anomaly df v)) = length (filter (\<lambda>y. y = a) v)"
  by (induction df v rule: list_induct2) auto

lemma ai_frame_Inr:
  assumes "ai_frame forest text = Inr scored"
  obtains rows v where "to_datetime (parse_split (readlines text)) = Inr rows"
    and "fit_predict forest (map add_features rows) = Inr v"
    and "scored = map2 with_anomaly (map add_features rows) v"
  using assms by (auto simp: ai_frame_def bind_r_Inr_iff Let_def)

lemma value_counts_sum: "sum_list (map snd (value_counts ks)) = length ks"
proof -
  have "mset (value_counts ks) = mset (counter ks)" by (simp add: value_counts_def)
  then have "sum_list (map snd (value_counts ks)) = sum_list (map snd (counter ks))"
    by (metis mset_map sum_mset_sum_list)
  then show ?thesis by (simp add: counter_sum)
qed

lemma ai_frame_nonempty:
  assumes "ai_frame forest text = Inr scored"
  shows "scored \<noteq> []"
proof -
  obtain rows v where v: "fit_predict forest (map add_features rows) = Inr v"
    and sc: "scored = map2 with_anomaly (map add_features rows) v"
    using assms by (rule ai_frame_Inr)
  obtain X where X: "check_array (map add_features rows) = Inr X"
    and vX: "v = map (\<lambda>x. if forest X x < percentile (map (forest X) X) 10 then -1 else 1) X"
    using v by (rule fit_predict_Inr)
  have "X \<noteq> []" and "length X = length rows" using check_array_Inr [OF X] by simp_all
  then show ?thesis using sc vX by (cases rows) auto
qed

lemma ai_frame_error:
  "ai_frame forest text = Inl e \<longleftrightarrow>
   (case to_datetime (parse_split (readlines text)) of
      Inl e' \<Rightarrow> e = e'
    | Inr rows \<Rightarrow> (if \<exists>r \<in> set rows. level r \<notin> {''INFO'', ''WARNING'', ''ERROR'', ''CRITICAL''}
                  then e = NaNInput else rows = [] \<and> e = EmptyInput))"
proof (cases "to_datetime (parse_split (readlines text))")
  case (Inl e')
  then show ?thesis by (auto simp: ai_frame_def)
next
  case (Inr rows)
  have "(\<exists>r \<in> set (map add_features rows). level_score r = None) \<longleftrightarrow>
        (\<exists>r \<in> set rows. level r \<notin> {''INFO'', ''WARNING'', ''ERROR'', ''CRITICAL''})"
    by (auto simp: add_features_def level_mapping_None)
  then have fe: "fit_predict forest (map add_features rows) = Inl e \<longleftrightarrow>
      (if \<exists>r \<in> set rows. level r \<notin> {''INFO'', ''WARNING'', ''ERROR'', ''CRITICAL''}
       then e = NaNInput else rows = [] \<and> e = EmptyInput)"
    by (simp only: fit_predict_error map_is_Nil_conv)
  have "ai_frame forest text = Inl e \<longleftrightarrow> fit_predict forest (map add_features rows) = Inl e"
    using Inr by (simp add: ai_frame_def Let_def bind_r_def split: sum.split)
  then show ?thesis using Inr fe by simp
qed

lemma get_ai_analysis_Inl:
  "get_ai_analysis forest text = Inl e \<longleftrightarrow> ai_frame forest text = Inl e"
proof (cases "ai_frame forest text")
  case (Inr scored)
  then have "scored \<noteq> []" by (rule ai_frame_nonempty)
  then have ne: "\<not> length (scored) = 0" by simp
  show ?thesis unfolding get_ai_analysis_def Inr bind_r_simps Let_def if_not_P [OF ne]
    by (simp only: sum.distinct)
qed (simp add: get_ai_analysis_def)

lemma generate_anomaly_webpage_Inl:
  "generate_anomaly_webpage forest text = Inl e \<longleftrightarrow> ai_frame forest text = Inl e"
proof (cases "ai_frame forest text")
  case (Inr scored)
  then have "scored \<noteq> []" by (rule ai_frame_nonempty)
  then have ne: "\<not> length (map label_anomaly scored) = 0" by simp
  show ?thesis unfolding generate_anomaly_webpage_def Inr bind_r_simps Let_def if_not_P [OF ne]
    by (simp only: sum.distinct)
qed (simp add: generate_anomaly_webpage_def)

lemma error_counts_eq:
  "error_counts df =
     (if \<exists>r \<in> set df. level r = ''ERROR'' \<and> timestamp r < - 9223372020
      then Inl (RoundOverflow (hd (filter (\<lambda>t. t < - 9223372020) (error_times df))))
      else Inr (counter (map (\<lambda>t. t - t mod 30) (error_times df))))"
  by (auto simp: error_counts_def map_r_floor error_times_def not_le)

text \<open>
  C5: the statistical analysis fails exactly in three ways, for every scorer, and the
  REST endpoint and the report generator fail alike: a timestamp \<open>to_datetime\<close>
  refuses raises its error; otherwise a level outside the four known names raises
  sklearn's NaN error, and a log without any four-field line raises its empty-input
  error (where the specification asks for an \<open>UnknownLevelError\<close> and an empty
  result); the percentage's \<open>ZeroDivisionError\<close> is never reached.
\<close>

theorem ai_analysis_error:
  "(generate_anomaly_webpage forest text = Inl e \<longleftrightarrow> get_ai_analysis forest text = Inl e) \<and>
   (get_ai_analysis forest text = Inl e \<longleftrightarrow>
     (case to_datetime (parse_split (readlines text)) of
        Inl e' \<Rightarrow> e = e'
      | Inr rows \<Rightarrow> (if \<exists>r \<in> set rows. level r \<notin> {''INFO'', ''WARNING'', ''ERROR'', ''CRITICAL''}
                    then e = NaNInput else rows = [] \<and> e = EmptyInput)))"
  unfolding generate_anomaly_webpage_Inl get_ai_analysis_Inl ai_frame_error by simp

text \<open>
  C6: the rule-based REST endpoint answers HTTP 500 exactly when \<open>to_datetime\<close> refuses
  a timestamp of a line the regular expression accepted, or when an ERROR record lies
  in the first window after \<open>Timestamp.min\<close>, whose floor overflows; the error is then
  the first such record's. Every other log, the empty one included, gets an answer.
\<close>

theorem basic_analysis_error:
  "api_basic_analysis text = Json500 e \<longleftrightarrow>
   (case to_datetime (parse_regex (readlines text)) of
      Inl e' \<Rightarrow> e = e'
    | Inr df \<Rightarrow> (\<exists>r \<in> set df. level r = ''ERROR'' \<and> timestamp r < - 9223372020) \<and>
                e = RoundOverflow (hd (filter (\<lambda>t. t < - 9223372020) (error_times df))))"
proof (cases "to_datetime (parse_regex (readlines text))")
  case (Inl e')
  then show ?thesis by (auto simp: api_basic_analysis_def api_response_def get_basic_analysis_def)
next
  case (Inr df)
  then show ?thesis
    by (auto simp: api_basic_analysis_def api_response_def get_basic_analysis_def
        basic_analysis_of_rows_def error_counts_eq)
qed

text \<open>
  C18: the totals of the rule-based analysis agree: the level distribution counts every
  parsed record once, \<open>total_logs\<close> is the number of lines the regex accepts, and
  \<open>recent_logs\<close> is the last ten records (all of them when there are fewer).
\<close>

theorem basic_analysis_totals:
  assumes "get_basic_analysis text = Inr res"
  shows "total_logs res = length (parse_regex (readlines text)) \<and>
         sum_list (map snd (level_distribution res)) = total_logs res \<and>
         distinct (map fst (level_distribution res)) \<and>
         length (recent_logs res) = min 10 (total_logs res)"
proof -
  obtain df where df: "to_datetime (parse_regex (readlines text)) = Inr df"
    and r: "basic_analysis_of_rows df = Inr res"
    using assms by (auto simp: get_basic_analysis_def bind_r_Inr_iff)
  obtain cs where res: "res = \<lparr>basic_anomalies = detect_spikes spike_threshold cs,
      total_logs = length df, level_distribution = value_counts (map level df),
      recent_logs = drop (length df - 10) df\<rparr>"
    using r by (auto simp: basic_analysis_of_rows_def bind_r_Inr_iff)
  have "distinct (map fst (value_counts (map level df)))"
    by (metis counter_distinct distinct_map mset_sort set_mset_mset distinct_sort value_counts_def)
  then show ?thesis using df res by (simp add: to_datetime_length value_counts_sum)
qed


lemma ai_frame_counts:
  assumes "ai_frame forest text = Inr scored"
  shows "length scored = length (parse_split (readlines text)) \<and>
         length (filter (\<lambda>r. anomaly r = -1) scored) \<le> nat \<lceil>real (length scored - 1) / 10\<rceil>"
proof -
  obtain rows v where rows: "to_datetime (parse_split (readlines text)) = Inr rows"
    and v: "fit_predict forest (map add_features rows) = Inr v"
    and sc: "scored = map2 with_anomaly (map add_features rows) v"
    using assms by (rule ai_frame_Inr)
  have b: "length v = length rows \<and> length (filter (\<lambda>y. y = -1) v) \<le> nat \<lceil>real (length rows - 1) / 10\<rceil>"
    using verdict_count_bound [OF v] by simp
  have "length (filter (\<lambda>r. anomaly r = -1) scored) = length (filter (\<lambda>y. y = -1) v)"
    unfolding sc using b by (intro length_filter_map2_with_anomaly) simp
  then show ?thesis using b sc to_datetime_length [OF rows] by simp
qed

text \<open>
  C19: the AI analysis answers with at most \<open>\<lceil>(n - 1) / 10\<rceil>\<close> anomalies for \<open>n\<close> parsed
  records, lists the first twenty of them (all of them when fewer), each one a record
  the forest marked \<open>-1\<close>, and reports a percentage between 0 and 100.
\<close>

theorem ai_analysis_result:
  assumes "get_ai_analysis forest text = Inr res"
  shows "total_anomalies res \<le> nat \<lceil>real (length (parse_split (readlines text)) - 1) / 10\<rceil> \<and>
         length (ai_anomalies res) = min 20 (total_anomalies res) \<and>
         (\<forall>r \<in> set (ai_anomalies res). anomaly r = -1) \<and>
         0 \<le> anomaly_percentage res \<and> anomaly_percentage res \<le> 100"
proof -
  obtain scored where sc: "ai_frame forest text = Inr scored"
    and r: "(let anomalies = filter (\<lambda>r. anomaly r = -1) scored
             in if length scored = 0 then Inl ZeroDivision
                else Inr \<lparr>total_anomalies = length anomalies,
                    anomaly_percentage = py_round 2 (real (length anomalies) / real (length scored) * 100),
                    ai_anomalies = take 20 anomalies\<rparr>) = Inr res"
    using assms unfolding get_ai_analysis_def bind_r_Inr_iff by blast
  have ne: "length scored \<noteq> 0"
  proof
    assume "length scored = 0"
    then show False using r by (simp add: Let_def)
  qed
  have res: "res = \<lparr>total_anomalies = length (filter (\<lambda>r. anomaly r = -1) scored),
      anomaly_percentage = py_round 2 (real (length (filter (\<lambda>r. anomaly r = -1) scored)) / real (length scored) * 100),
      ai_anomalies = take 20 (filter (\<lambda>r. anomaly r = -1) scored)\<rparr>"
    using r ne by (simp add: Let_def)
  let ?k = "length (filter (\<lambda>r. anomaly r = -1) scored)"
  have "real ?k \<le> real (length scored)" by simp
  then have "real ?k / real (length scored) * 100 \<le> 100" using ne by (simp add: divide_le_eq)
  then have "0 \<le> py_round 2 (real ?k / real (length scored) * 100) \<and>
             py_round 2 (real ?k / real (length scored) * 100) \<le> 100"
    by (intro py_round_percent) simp_all
  then have pct: "0 \<le> anomaly_percentage res \<and> anomaly_percentage res \<le> 100" by (simp add: res)
  have all: "\<forall>r \<in> set (ai_anomalies res). anomaly r = -1" unfolding res by (auto dest: in_set_takeD)
  have tot: "total_anomalies res = ?k" by (simp add: res)
  have take: "length (ai_anomalies res) = min 20 ?k" by (simp add: res)
  note c = ai_frame_counts [OF sc]
  have cnt: "?k \<le> nat \<lceil>real (length (parse_split (readlines text)) - 1) / 10\<rceil>"
    using c [THEN conjunct2] unfolding c [THEN conjunct1] .
  show ?thesis unfolding tot using cnt take all pct by (intro conjI) blast+
qed

text \<open>
  C20: the report lists exactly the records labelled \<open>Anomaly\<close>, in ascending order
  of time, counts them in \<open>report_found\<close> out of the \<open>report_total\<close> records the split
  parser read, and shows the table exactly when there is at least one.
\<close>

theorem anomaly_report_sorted:
  assumes "generate_anomaly_webpage forest text = Inr rep"
  shows "sorted (map timestamp (report_anomalies rep)) \<and>
         (\<forall>r \<in> set (report_anomalies rep). is_anomaly r = Anomaly \<and> anomaly r = -1) \<and>
         report_found rep = length (report_anomalies rep) \<and>
         report_found rep \<le> report_total rep \<and>
         report_total rep = length (parse_split (readlines text)) \<and>
         (report_body rep = NoAnomalies \<longleftrightarrow> report_found rep = 0)"
proof -
  obtain scored where sc: "ai_frame forest text = Inr scored"
    and res: "rep = (let df = map label_anomaly scored;
           anomalies = sort_key timestamp (filter (\<lambda>r. is_anomaly r = Anomaly) df)
       in \<lparr>report_total = length df, report_found = length anomalies,
           report_rate = py_round 1 (real (length anomalies) / real (length df) * 100),
           report_anomalies = anomalies, report_body = report_content_of anomalies\<rparr>)"
    using assms by (auto simp: generate_anomaly_webpage_def bind_r_Inr_iff Let_def split: if_splits)
  define A where "A = sort_key timestamp (filter (\<lambda>r. is_anomaly r = Anomaly) (map label_anomaly scored))"
  have rep: "rep = \<lparr>report_total = length scored, report_found = length A,
      report_rate = py_round 1 (real (length A) / real (length scored) * 100),
      report_anomalies = A, report_body = report_content_of A\<rparr>"
    using res by (simp add: A_def Let_def)
  have setA: "\<forall>r \<in> set A. is_anomaly r = Anomaly \<and> anomaly r = -1"
    by (auto simp: A_def label_anomaly_def split: if_splits)
  have "length A \<le> length scored"
    unfolding A_def by (metis length_filter_le length_map length_sort)
  moreover have "report_content_of A = NoAnomalies \<longleftrightarrow> length A = 0"
    by (simp add: report_content_of_def)
  moreover have "sorted (map timestamp A)" by (simp add: A_def)
  ultimately show ?thesis using rep setA ai_frame_counts [OF sc] by simp
qed

declare value_counts_def [pipeline_simps] basic_analysis_of_rows_def [pipeline_simps]
  get_basic_analysis_def [pipeline_simps] with_anomaly_def [pipeline_simps] ai_frame_def [pipeline_simps]
  get_ai_analysis_def [pipeline_simps] label_anomaly_def [pipeline_simps] anomaly_row_def [pipeline_simps]
  report_content_of_def [pipeline_simps] generate_anomaly_webpage_def [pipeline_simps]
  api_response_def [pipeline_simps] api_basic_analysis_def [pipeline_simps] api_ai_analysis_def [pipeline_simps]

end
