(* ===== verification/WebServer.thy ===== *)
theory WebServer
  imports PyStr
begin

text \<open>
  The static server \<open>serve_webpage.py\<close>: its command line (\<open>int(sys.argv[1])\<close> with the
  fallback to port 8000) and the decisions of \<open>serve_webpage(port)\<close>. The file system,
  the socket and the browser are an environment record: whether the page exists, the
  error \<open>bind\<close> raises on a port (its message), and whether the user interrupts the
  server. What the program prints is a list of messages; the result says whether
  \<open>serve_webpage\<close> returns, serves forever, or lets an exception escape.
\<close>

subsection \<open>The server\<close>

record server_env =
  html_exists :: bool                    \<comment> \<open>\<open>os.path.exists("anomaly_results.html")\<close>\<close>
  bind_errors :: "(int \<times> string) list"   \<comment> \<open>ports whose \<open>bind\<close> raises \<open>OSError\<close>, with \<open>str(e)\<close>\<close>
  interrupted :: bool                    \<comment> \<open>Ctrl+C during \<open>serve_forever()\<close>\<close>

datatype server_msg =
    HtmlMissing | RunGeneratorFirst
  | ServingAt int | DirectLink int | PressCtrlC
  | ServerStopped
  | PortInUse int | TryCommand int
  | StartError string
  | InvalidPort

datatype serve_result = Returned | ServingForever | UncaughtOverflowError

text \<open>
  \<open>socketserver.TCPServer(("", port), Handler)\<close> binds at construction: a port outside
  \<open>0..65535\<close> makes \<open>bind\<close> raise \<open>OverflowError\<close>, which is not an \<open>OSError\<close> and escapes
  the handler; an \<open>OSError\<close> is reported, as a busy port when its message says so.
\<close>

definition serve_webpage :: "server_env \<Rightarrow> int \<Rightarrow> server_msg list \<times> serve_result" where
  "serve_webpage env port =
     (if \<not> html_exists env then ([HtmlMissing, RunGeneratorFirst], Returned)
      else if port < 0 \<or> 65535 < port then ([], UncaughtOverflowError)
      else case map_of (bind_errors env) port of
        Some e \<Rightarrow>
          (if sublist ''Address already in use'' e then ([PortInUse port, TryCommand (port + 1)], Returned)
           else ([StartError e], Returned))
      | None \<Rightarrow>
          if interrupted env then ([ServingAt port, DirectLink port, PressCtrlC, ServerStopped], Returned)
          else ([ServingAt port, DirectLink port, PressCtrlC], ServingForever))"

definition port_of_args :: "string list \<Rightarrow> int \<times> server_msg list" where
  "port_of_args argv =
     (if 1 < length argv then
        (case py_int (argv ! 1) of Some p \<Rightarrow> (p, []) | None \<Rightarrow> (8000, [InvalidPort]))
      else (8000, []))"

definition serve_main :: "server_env \<Rightarrow> string list \<Rightarrow> server_msg list \<times> serve_result" where
  "serve_main env argv =
     (let (port, msgs) = port_of_args argv; (out, r) = serve_webpage env port in (msgs @ out, r))"


subsection \<open>Properties\<close>

lemma serve_main_split:
  "serve_main env argv =
     (snd (port_of_args argv) @ fst (serve_webpage env (fst (port_of_args argv))),
      snd (serve_webpage env (fst (port_of_args argv))))"
  by (simp add: serve_main_def case_prod_beta)

lemma serve_webpage_forever:
  "snd (serve_webpage env port) = ServingForever \<longleftrightarrow>
   html_exists env \<and> 0 \<le> port \<and> port \<le> 65535 \<and> map_of (bind_errors env) port = None \<and>
   \<not> interrupted env"
  by (auto simp: serve_webpage_def split: option.splits)

text \<open>
  C21: when the server ends up serving forever, the page exists, the port it serves is
  the one the command line gave (or 8000) and lies in \<open>0..65535\<close>, its \<open>bind\<close> succeeded,
  and the program has announced that port.
\<close>

theorem serve_main_serving_port:
  assumes "serve_main env argv = (out, ServingForever)"
  shows "html_exists env \<and> 0 \<le> fst (port_of_args argv) \<and> fst (port_of_args argv) \<le> 65535 \<and>
         map_of (bind_errors env) (fst (port_of_args argv)) = None \<and>
         ServingAt (fst (port_of_args argv)) \<in> set out"
proof -
  let ?p = "fst (port_of_args argv)"
  have r: "snd (serve_webpage env ?p) = ServingForever"
    and o: "out = snd (port_of_args argv) @ fst (serve_webpage env ?p)"
    using assms by (simp_all add: serve_main_split)
  have c: "html_exists env \<and> 0 \<le> ?p \<and> ?p \<le> 65535 \<and> map_of (bind_errors env) ?p = None \<and> \<not> interrupted env"
    using r by (simp add: serve_webpage_forever)
  then have "fst (serve_webpage env ?p) = [ServingAt ?p, DirectLink ?p, PressCtrlC]"
    by (simp add: serve_webpage_def)
  then show ?thesis using c o by simp
qed

text \<open>
  C22: once the page exists, an \<open>OverflowError\<close> escapes \<open>serve_webpage\<close> exactly when the
  port taken from the command line lies outside \<open>0..65535\<close>: the handler catches only
  \<open>OSError\<close>, so such a port ends the program with a traceback instead of a message.
\<close>

theorem serve_main_overflow:
  assumes "html_exists env"
  shows "snd (serve_main env argv) = UncaughtOverflowError \<longleftrightarrow>
         fst (port_of_args argv) < 0 \<or> 65535 < fst (port_of_args argv)"
  using assms by (auto simp: serve_main_split serve_webpage_def split: option.splits)

text \<open>
  C24: the server makes progress when nothing stops it: with the page present, a port
  in \<open>0..65535\<close> from the command line, a \<open>bind\<close> that succeeds and no Ctrl+C, the
  program announces the port and serves forever.
\<close>

theorem serve_main_serves:
  assumes "html_exists env" and "port_of_args argv = (p, msgs)" and "0 \<le> p" and "p \<le> 65535"
    and "map_of (bind_errors env) p = None" and "\<not> interrupted env"
  shows "serve_main env argv = (msgs @ [ServingAt p, DirectLink p, PressCtrlC], ServingForever)"
  using assms by (simp add: serve_main_def serve_webpage_def)


declare serve_webpage_def [pipeline_simps] port_of_args_def [pipeline_simps] serve_main_def [pipeline_simps]

end
