(* ===== verification/Spec2Isabelle.thy ===== *)
theory Spec2Isabelle
  imports Analysis WebServer
begin

text \<open>
  \<^bold>\<open>A model of the AIOps log analysis.\<close>

  The program (\<open>src/\<close>) reads a text log \<open>error_logs.txt\<close> of lines
  \<open>YYYY-MM-DD HH:MM:SS LEVEL message\<close> and looks for anomalies in two ways:
  \<^item> a rule (\<open>web_app.py\<close>, \<open>get_basic_analysis\<close>): the lines that match a regular
    expression become records, the ERROR records are counted per 30-second window, and
    every window with more than 3 of them is a spike;
  \<^item> a statistical model (\<open>web_app.py\<close>, \<open>get_ai_analysis\<close>, and the same code in
    \<open>web_anomaly_display.py\<close>, \<open>generate_anomaly_webpage\<close>): the lines that split into four
    fields become records with the features (level score, message length), and
    sklearn's IsolationForest with contamination 0.1 marks some of them as anomalies.
  The Flask handlers \<open>api_basic_analysis\<close>, \<open>api_ai_analysis\<close> answer the two analyses
  as JSON, an exception as an HTTP 500 answer; \<open>generate_anomaly_webpage\<close> writes the
  statistical result as an HTML page, which \<open>serve_webpage.py\<close> serves.

  \<^bold>\<open>Theories.\<close>
  \<^item> \<open>Prelude\<close>: the exceptions as the datatype \<open>error\<close>; every fallible stage returns
    \<open>error + 'a\<close>, composed with \<open>bind_r\<close>; \<open>map_r\<close> is a pandas column conversion that
    raises at the first bad element. The collection \<open>pipeline_simps\<close> gathers the
    unfolding rules of all stages, used to evaluate the pipeline on concrete logs.
  \<^item> \<open>PyStr\<close>: the Python string operations the code calls, on Latin-1 characters:
    \<open>str.strip\<close> (\<open>py_strip\<close>), \<open>str.split(" ", 3)\<close> (\<open>py_split\<close>),
    \<open>file.readlines\<close> with universal newlines (\<open>readlines\<close>), \<open>str(n)\<close>
    (\<open>py_str_nat\<close>), \<open>str.lower\<close>, \<open>round\<close> (half to even, \<open>py_round\<close>) and the
    character classes of \<open>re\<close> (\<open>\d\<close>, \<open>\w\<close>).
  \<^item> \<open>LogParser\<close>: the two line parsers, \<open>parse_split_line\<close> (\<open>log.strip().split(" ", 3)\<close>,
    web_app.py 61-68, web_anomaly_display.py 15-22) and \<open>parse_regex_line\<close> (the
    \<open>re.match\<close> of web_app.py 17-21), each lifted to the file.
  \<^item> \<open>Timestamps\<close>: \<open>pd.to_datetime\<close> on the log's timestamp format, with the int64
    nanosecond range of pandas (\<open>OutOfBoundsDatetime\<close>), and \<open>dt.floor("30s")\<close> with its
    overflow check; a timestamp is an integer count of seconds since the epoch. Only the
    zero-padded shape \<open>YYYY-MM-DD HH:MM:SS\<close> of the log is accepted; pandas' format
    inference also takes e.g. unpadded months, which the model refuses as a parse error
    (this matters only for lines of the split parser, whose timestamp field is free).
  \<^item> \<open>TimeFormat\<close>: \<open>Timestamp.strftime('%Y-%m-%d %H:%M:%S')\<close> (\<open>strftime_ts\<close>),
    by a civil date computed from the day count (\<open>civil_from_days\<close>: whole years walked
    from the start of the 400-year cycle, then whole months), used for the time of a
    spike and of a report row.
  \<^item> \<open>Counter\<close>: \<open>collections.Counter\<close> as an association list in first-occurrence
    order.
  \<^item> \<open>SpikeDetector\<close>: \<open>error_counts\<close> and the loop \<open>detect_spikes\<close> of web_app.py 27-41.
  \<^item> \<open>Features\<close>: \<open>level_mapping\<close> and \<open>add_features\<close> (\<open>Series.map\<close> yields NaN, here
    \<open>None\<close>, for an unknown level).
  \<^item> \<open>OutlierDetector\<close>: \<open>IsolationForest.fit_predict\<close>. The random trees are not
    modelled: the score function is a parameter \<open>forest\<close> of type \<open>scorer\<close> (the scores
    the fitted forest gives), and what the model fixes is what sklearn does with them:
    \<open>check_array\<close> (NaN and empty input raise), the offset
    \<open>np.percentile(scores, 100 * contamination)\<close> and the verdict \<open>-1\<close> for a score
    below it. Every property of this theory holds for every scorer.
  \<^item> \<open>Analysis\<close>: the entry points composed from the stages: \<open>get_basic_analysis\<close>,
    \<open>ai_frame\<close> (the common first half of the statistical path), \<open>get_ai_analysis\<close>,
    \<open>generate_anomaly_webpage\<close> (its statistics and the rows of its table), and the
    REST handlers.
  \<^item> \<open>WebServer\<close>: \<open>serve_webpage.py\<close>: the port taken from the command line with
    Python's \<open>int()\<close> (\<open>py_int\<close> in \<open>PyStr\<close>) and the decisions of \<open>serve_webpage\<close>
    (missing page, port outside \<open>0..65535\<close>, a failing \<open>bind\<close>, Ctrl+C) over an
    environment record standing for the file system and the socket; the printed lines
    are a list of messages.

  \<^bold>\<open>What the lemmas show.\<close>
  The spike rule reports exactly the aligned 30-second windows with more than 3 ERROR
  records, each with its printed start and exact count (C1, C2), in the order in which
  the windows first occur among the ERROR records (C9), which is ascending only when
  the log is chronological (C8); bucketing raises exactly for ERROR records in the
  first window after \<open>Timestamp.min\<close> (C10), and the rule-based endpoint answers HTTP
  500 exactly then or for a refused timestamp (C6). The forest marks at most
  \<open>\<lceil>(n - 1) / 10\<rceil>\<close> of \<open>n\<close> records, exactly that many when the scores are
  distinct (C3, C4), with verdicts that depend only on the features (C11), none for a
  single record (C12); the statistical path fails exactly on a refused timestamp, an
  unknown level or a log without four-field lines, never by division by zero, for
  every scorer (C5, C17). The parsers are related field by field (C7) and characterised
  (C13, C16), the level score by its range (C15), \<open>dt.floor\<close> by its window (C14), a
  printed timestamp parses back to itself (C23); the entry points by their totals,
  bounds and order (C18 to C20). The server takes its port from \<open>argv[1]\<close> as written
  (C25), serves only a port in range that the command line named (C21), serves
  whenever nothing stops it (C24), and lets an out-of-range port escape its error
  handler (C22).

  \<^bold>\<open>Bounds.\<close> No fuel is used for the program's loops: each runs over a finite list
  and is a structural recursion, or \<open>split_lines\<close> with a termination proof on the
  length. The year walk of \<open>civil_from_days\<close> is bounded by 400 steps, enough because
  a 400-year cycle has exactly 146097 days (\<open>year_start_400\<close>), so the walk always
  stops on the year (\<open>civil_from_days_correct\<close>).
  The integer bounds are those of pandas (\<open>-(2^63 - 1)\<close> to \<open>2^63 - 1\<close> nanoseconds).

  \<^bold>\<open>Not modelled.\<close> File and network I/O (\<open>open\<close>, \<open>os.chdir\<close>, the socket and
  the request handling of the HTTP server, the browser, Flask's routing), the HTML
  markup and CSS of the page, JSON encoding (including how \<open>jsonify\<close> renders the
  Timestamps of \<open>recent_logs\<close> and of the AI anomalies), \<open>datetime.now()\<close>, the \<open>model_info\<close> constant of the AI answer, the random
  isolation trees themselves (a parameter, see above), and the binary floating-point
  rounding of the percentages (rounded here on exact reals).
\<close>

subsection \<open>Scenario inputs\<close>

definition spec_spike_log :: string where
  "spec_spike_log =
     ''2024-01-01 10:00:00 ERROR db timeout\<newline>2024-01-01 10:00:05 ERROR db timeout\<newline>'' @
     ''2024-01-01 10:00:10 ERROR db timeout\<newline>2024-01-01 10:00:15 ERROR db timeout\<newline>''"

definition spec_rows :: "log_record list" where
  "spec_rows = map (\<lambda>t. \<lparr>timestamp = t, level = ''ERROR'', message = ''db timeout''\<rparr>)
     [1704103200, 1704103205, 1704103210, 1704103215]"

definition unsorted_rows :: "log_record list" where
  "unsorted_rows =
     map (\<lambda>t. \<lparr>timestamp = t, level = ''ERROR'', message = ''a''\<rparr>) [1704103230, 1704103231, 1704103232, 1704103233] @
     map (\<lambda>t. \<lparr>timestamp = t, level = ''ERROR'', message = ''b''\<rparr>) [1704103200, 1704103201, 1704103202, 1704103203]"

definition two_line_log :: string where
  "two_line_log = ''2024-01-01 10:00:00 INFO a\<newline>2024-01-01 10:00:05 INFO abc\<newline>''"

text \<open>A scorer for the examples: shorter messages are more normal.\<close>

definition demo_forest :: scorer where
  "demo_forest X x = - real (snd x)"

definition demo_features :: "featured_record list" where
  "demo_features = map add_features
     [\<lparr>timestamp = 1704103200, level = ''INFO'', message = ''a''\<rparr>,
      \<lparr>timestamp = 1704103205, level = ''INFO'', message = ''abc''\<rparr>]"

definition twin_features :: "featured_record list" where
  "twin_features = map add_features
     [\<lparr>timestamp = 1704103200, level = ''INFO'', message = ''a''\<rparr>,
      \<lparr>timestamp = 1704103201, level = ''INFO'', message = ''b''\<rparr>,
      \<lparr>timestamp = 1704103202, level = ''INFO'', message = ''abc''\<rparr>]"

lemmas scenario_defs = spec_spike_log_def spec_rows_def unsorted_rows_def two_line_log_def
  demo_forest_def demo_features_def twin_features_def

subsection \<open>The properties at concrete inputs\<close>

theorem spike_window_sound_witness:
  "\<exists>b. spike_time \<lparr>spike_time = ''2024-01-01 10:00:00'', spike_count = 4,
                        spike_message = ''4 ERROR logs in 30 seconds''\<rparr> = strftime_ts b \<and>
     30 dvd b \<and>
     spike_threshold < spike_count \<lparr>spike_time = ''2024-01-01 10:00:00'', spike_count = 4,
                        spike_message = ''4 ERROR logs in 30 seconds''\<rparr> \<and>
     spike_count \<lparr>spike_time = ''2024-01-01 10:00:00'', spike_count = 4,
                   spike_message = ''4 ERROR logs in 30 seconds''\<rparr> =
       length (filter (\<lambda>r. level r = ''ERROR'' \<and> b \<le> timestamp r \<and> timestamp r < b + 30) spec_rows)"
  by (rule spike_window_sound [of spec_rows "[(1704103200, 4)]"])
    (simp_all add: pipeline_simps scenario_defs Let_def)

theorem spike_window_complete_witness:
  "\<exists>sp \<in> set (detect_spikes spike_threshold [(1704103200, 4)]).
     spike_time sp = strftime_ts 1704103200 \<and> spike_count sp = 4"
  using spike_window_complete [of spec_rows "[(1704103200, 4)]" 1704103200]
  by (simp add: pipeline_simps scenario_defs Let_def)

theorem anomaly_count_bound_witness:
  "length [1, -1 :: int] = length demo_features \<and>
   length (filter (\<lambda>y. y = -1) [1, -1 :: int]) \<le> nat \<lceil>real (length demo_features - 1) / 10\<rceil>"
  using anomaly_count_bound [of demo_forest demo_features "[1, -1]"]
  by (simp add: pipeline_simps scenario_defs Let_def)

theorem anomaly_count_exact_witness:
  "length (filter (\<lambda>y. y = -1) [1, -1 :: int]) = nat \<lceil>real (length demo_features - 1) / 10\<rceil>"
  by (rule anomaly_count_exact [of demo_forest demo_features "[1, -1]" "[(1, 1), (1, 3)]"])
    (simp_all add: pipeline_simps scenario_defs Let_def)

theorem spikes_ascending_witness:
  "\<exists>bs. map spike_time (detect_spikes spike_threshold [(1704103200, 4)]) = map strftime_ts bs \<and>
     sorted bs \<and> distinct bs"
  by (rule spikes_ascending [of spec_rows "[(1704103200, 4)]" spike_threshold])
    (simp_all add: pipeline_simps scenario_defs Let_def)

theorem error_counts_overflow_witness:
  "\<exists>e. error_counts [\<lparr>timestamp = - 9223372036, level = ''ERROR'', message = ''x''\<rparr>] = Inl e"
  using error_counts_overflow [of "[\<lparr>timestamp = - 9223372036, level = ''ERROR'', message = ''x''\<rparr>]"]
  by simp

theorem same_features_same_verdict_witness:
  "[1, 1, -1 :: int] ! 0 = [1, 1, -1 :: int] ! 1"
  using same_features_same_verdict [of demo_forest twin_features "[1, 1, -1]" 0 1]
  by (simp add: pipeline_simps scenario_defs Let_def)

theorem single_record_normal_witness:
  "fit_predict demo_forest [add_features \<lparr>timestamp = 0, level = ''INFO'', message = ''a''\<rparr>] = Inr [1]"
  using single_record_normal [of "add_features \<lparr>timestamp = 0, level = ''INFO'', message = ''a''\<rparr>" 1 demo_forest]
  by (simp add: pipeline_simps)

theorem dt_floor_30s_window_witness:
  "30 dvd (1704103200 :: int) \<and> (1704103200 :: int) \<le> 1704103205 \<and> (1704103205 :: int) < 1704103200 + 30"
  using dt_floor_30s_window [of 1704103205 1704103200]
  by (simp add: pipeline_simps)

theorem add_features_level_score_witness:
  "level_score (add_features \<lparr>timestamp = 0, level = ''DEBUG'', message = ''x''\<rparr>) = None \<and>
   level_score (add_features \<lparr>timestamp = 0, level = ''ERROR'', message = ''x''\<rparr>) = Some 3"
  using add_features_level_score [of "\<lparr>timestamp = 0, level = ''DEBUG'', message = ''x''\<rparr>"]
  by (simp add: pipeline_simps)

theorem parse_split_line_message_witness:
  "parse_split_line ''2024-01-01 10:00:00 INFO ok  \<newline>'' =
     Some \<lparr>raw_timestamp = ''2024-01-01 10:00:00'', raw_level = ''INFO'', raw_message = ''ok''\<rparr> \<and>
   \<not> py_isspace (last ''ok'')"
  using parse_split_line_message [of "''2024-01-01 10:00:00 INFO ok  \<newline>''"
      "\<lparr>raw_timestamp = ''2024-01-01 10:00:00'', raw_level = ''INFO'', raw_message = ''ok''\<rparr>"]
  by (simp add: pipeline_simps Let_def)

theorem fit_predict_unknown_level_witness:
  "fit_predict demo_forest (map add_features
     [\<lparr>timestamp = 0, level = ''INFO'', message = ''a''\<rparr>, \<lparr>timestamp = 1, level = ''DEBUG'', message = ''b''\<rparr>])
   = Inl NaNInput"
  using fit_predict_unknown_level [of "\<lparr>timestamp = 1, level = ''DEBUG'', message = ''b''\<rparr>"
      "[\<lparr>timestamp = 0, level = ''INFO'', message = ''a''\<rparr>, \<lparr>timestamp = 1, level = ''DEBUG'', message = ''b''\<rparr>]"
      demo_forest]
  by simp

theorem basic_analysis_totals_witness:
  "total_logs \<lparr>basic_anomalies = [\<lparr>spike_time = ''2024-01-01 10:00:00'', spike_count = 4,
                               spike_message = ''4 ERROR logs in 30 seconds''\<rparr>],
          total_logs = 4, level_distribution = [(''ERROR'', 4)], recent_logs = spec_rows\<rparr> = 4 \<and>
   length (parse_regex (readlines spec_spike_log)) = 4"
  using basic_analysis_totals [of spec_spike_log
      "\<lparr>basic_anomalies = [\<lparr>spike_time = ''2024-01-01 10:00:00'', spike_count = 4,
                               spike_message = ''4 ERROR logs in 30 seconds''\<rparr>],
          total_logs = 4, level_distribution = [(''ERROR'', 4)], recent_logs = spec_rows\<rparr>"]
  by (simp add: pipeline_simps scenario_defs Let_def)

theorem ai_analysis_result_witness:
  "get_ai_analysis demo_forest two_line_log =
     Inr \<lparr>total_anomalies = 1, anomaly_percentage = 50,
          ai_anomalies = [with_anomaly (add_features \<lparr>timestamp = 1704103205, level = ''INFO'', message = ''abc''\<rparr>) (-1)]\<rparr> \<and>
   (1 :: nat) \<le> nat \<lceil>real (length (parse_split (readlines two_line_log)) - 1) / 10\<rceil>"
  using ai_analysis_result [of demo_forest two_line_log
      "\<lparr>total_anomalies = 1, anomaly_percentage = 50,
          ai_anomalies = [with_anomaly (add_features \<lparr>timestamp = 1704103205, level = ''INFO'', message = ''abc''\<rparr>) (-1)]\<rparr>"]
  by (simp add: pipeline_simps scenario_defs Let_def)

theorem anomaly_report_sorted_witness:
  "generate_anomaly_webpage demo_forest two_line_log =
     Inr \<lparr>report_total = 2, report_found = 1, report_rate = 50,
          report_anomalies = [label_anomaly (with_anomaly (add_features \<lparr>timestamp = 1704103205, level = ''INFO'', message = ''abc''\<rparr>) (-1))],
          report_body = AnomalyTable [\<lparr>row_timestamp = ''2024-01-01 10:00:05'', row_level = ''INFO'',
                                       row_level_class = ''level-info'', row_message = ''abc''\<rparr>]\<rparr>"
  using anomaly_report_sorted [of demo_forest two_line_log
      "\<lparr>report_total = 2, report_found = 1, report_rate = 50,
          report_anomalies = [label_anomaly (with_anomaly (add_features \<lparr>timestamp = 1704103205, level = ''INFO'', message = ''abc''\<rparr>) (-1))],
          report_body = AnomalyTable [\<lparr>row_timestamp = ''2024-01-01 10:00:05'', row_level = ''INFO'',
                                       row_level_class = ''level-info'', row_message = ''abc''\<rparr>]\<rparr>"]
  by (simp add: pipeline_simps scenario_defs Let_def)


theorem serve_main_serving_port_witness:
  "html_exists \<lparr>html_exists = True, bind_errors = [], interrupted = False\<rparr> \<and>
   fst (port_of_args [''serve_webpage.py'', ''8080'']) = 8080 \<and>
   ServingAt 8080 \<in> set [ServingAt 8080, DirectLink 8080, PressCtrlC]"
  using serve_main_serving_port [of "\<lparr>html_exists = True, bind_errors = [], interrupted = False\<rparr>"
      "[''serve_webpage.py'', ''8080'']" "[ServingAt 8080, DirectLink 8080, PressCtrlC]"]
  by (simp add: pipeline_simps Let_def sublist_Cons_right)

theorem serve_main_overflow_witness:
  "snd (serve_main \<lparr>html_exists = True, bind_errors = [], interrupted = False\<rparr>
          [''serve_webpage.py'', ''-1'']) = UncaughtOverflowError"
  using serve_main_overflow [of "\<lparr>html_exists = True, bind_errors = [], interrupted = False\<rparr>"
      "[''serve_webpage.py'', ''-1'']"]
  by (simp add: pipeline_simps Let_def sublist_Cons_right)


theorem strftime_roundtrip_witness:
  "strftime_ts 1704103200 = ''2024-01-01 10:00:00'' \<and>
   parse_timestamp ''2024-01-01 10:00:00'' = Inr 1704103200"
  using strftime_roundtrip [of 1704103200]
  by (simp add: pipeline_simps Let_def)


theorem serve_main_serves_witness:
  "serve_main \<lparr>html_exists = True, bind_errors = [(80, ''[Errno 13] Permission denied'')], interrupted = False\<rparr>
     [''serve_webpage.py'', ''8080''] = ([ServingAt 8080, DirectLink 8080, PressCtrlC], ServingForever)"
  using serve_main_serves [of "\<lparr>html_exists = True, bind_errors = [(80, ''[Errno 13] Permission denied'')],
      interrupted = False\<rparr>" "[''serve_webpage.py'', ''8080'']" 8080 "[]"]
  by (simp add: pipeline_simps Let_def)


theorem spikes_first_occurrence_witness:
  "map spike_time (detect_spikes spike_threshold [(1704103230, 4), (1704103200, 4)]) =
   map strftime_ts (filter (\<lambda>b. spike_threshold < length (filter (\<lambda>r. level r = ''ERROR'' \<and>
                                 b \<le> timestamp r \<and> timestamp r < b + 30) unsorted_rows))
                      (rev (remdups (rev (map (\<lambda>t. t - t mod 30) (error_times unsorted_rows))))))"
  by (rule spikes_first_occurrence) (simp add: pipeline_simps scenario_defs Let_def)

theorem ai_analysis_error_witness:
  "get_ai_analysis demo_forest '''' = Inl EmptyInput \<and>
   get_ai_analysis demo_forest ''2024-01-01 10:00:00 DEBUG x'' = Inl NaNInput"
proof -
  have e: "to_datetime (parse_split (readlines '''')) = Inr []"
    by (simp add: pipeline_simps)
  have d: "to_datetime (parse_split (readlines ''2024-01-01 10:00:00 DEBUG x'')) =
           Inr [\<lparr>timestamp = 1704103200, level = ''DEBUG'', message = ''x''\<rparr>]"
    by (simp add: pipeline_simps Let_def)
  show ?thesis
    using ai_analysis_error [of demo_forest "''''" EmptyInput]
      ai_analysis_error [of demo_forest "''2024-01-01 10:00:00 DEBUG x''" NaNInput] e d
    by simp
qed

theorem basic_analysis_error_witness:
  "api_basic_analysis ''1677-09-21 00:12:44 ERROR x'' = Json500 (RoundOverflow (- 9223372036))"
proof -
  have t: "to_datetime (parse_regex (readlines ''1677-09-21 00:12:44 ERROR x'')) =
           Inr [\<lparr>timestamp = - 9223372036, level = ''ERROR'', message = ''x''\<rparr>]"
    by (simp add: pipeline_simps Let_def)
  show ?thesis
    using basic_analysis_error [of "''1677-09-21 00:12:44 ERROR x''" "RoundOverflow (- 9223372036)"] t
    by (simp add: error_times_def)
qed


end
